theory Spec2Isabelle
  imports Complex_Main "HOL-Library.Word" "HOL-Library.Char_ord" "HOL-Library.List_Lexorder"
    "HOL-Library.Multiset"
begin

unbundle bit_operations_syntax

section \<open>The Auto-Tester control core of reef-pi\<close>

text \<open>
  A shallow embedding of \<^verbatim>\<open>controller/modules/autotester\<close>: the persistent task
  queue (\<^verbatim>\<open>queue.go\<close>), the configuration record (\<^verbatim>\<open>config.go\<close>) and the task
  executor with its HTTP handlers (\<^verbatim>\<open>manager.go\<close>).  Go's \<^verbatim>\<open>byte\<close> is \<open>8 word\<close>,
  \<^verbatim>\<open>float32\<close> is its IEEE-754 binary32 bit pattern (\<open>32 word\<close>), \<^verbatim>\<open>int64\<close> Unix
  seconds are \<open>int\<close> (they are only compared, never computed with) and strings are
  byte strings.
\<close>

subsection \<open>float32 arithmetic\<close>

text \<open>
  The reagent and waste volumes are \<^verbatim>\<open>float32\<close>.  A finite binary32 value is an integer
  multiple of \<open>2 ^ -149\<close>; the model computes on that integer, so that a sum is exact
  before it is rounded to nearest, ties to even, as the hardware does.
\<close>

type_synonym byte = "8 word"
type_synonym float32 = "32 word"

definition f32_negative :: "nat \<Rightarrow> bool" where
  "f32_negative b = (2 ^ 31 \<le> b)"

definition f32_exponent :: "nat \<Rightarrow> nat" where
  "f32_exponent b = b div 2 ^ 23 mod 256"

definition f32_fraction :: "nat \<Rightarrow> nat" where
  "f32_fraction b = b mod 2 ^ 23"

definition f32_nan :: "nat \<Rightarrow> bool" where
  "f32_nan b = (f32_exponent b = 255 \<and> f32_fraction b \<noteq> 0)"

definition f32_inf :: "nat \<Rightarrow> bool" where
  "f32_inf b = (f32_exponent b = 255 \<and> f32_fraction b = 0)"

text \<open>The magnitude of a finite value, in units of \<open>2 ^ -149\<close>.\<close>

definition f32_magnitude :: "nat \<Rightarrow> nat" where
  "f32_magnitude b =
     (if f32_exponent b = 0 then f32_fraction b
      else (2 ^ 23 + f32_fraction b) * 2 ^ (f32_exponent b - 1))"

definition f32_units :: "nat \<Rightarrow> int" where
  "f32_units b = (if f32_negative b then - int (f32_magnitude b) else int (f32_magnitude b))"

fun bit_length :: "nat \<Rightarrow> nat" where
  "bit_length n = (if n = 0 then 0 else Suc (bit_length (n div 2)))"

declare bit_length.simps [simp del]

definition f32_pack :: "bool \<Rightarrow> nat \<Rightarrow> nat \<Rightarrow> nat" where
  "f32_pack s e m = (if s then 2 ^ 31 else 0) + e * 2 ^ 23 + m"

text \<open>
  Rounding a non-zero magnitude (in units of \<open>2 ^ -149\<close>) to binary32: below \<open>2 ^ 24\<close>
  units every integer is representable (subnormals and the first binade); above, the
  24 leading bits are kept and the rest decides the rounding, ties to even; an exponent
  field of 255 or more is an overflow to infinity.
\<close>

definition f32_round :: "bool \<Rightarrow> nat \<Rightarrow> nat" where
  "f32_round s n =
     (if n < 2 ^ 24 then f32_pack s (n div 2 ^ 23) (n mod 2 ^ 23)
      else
        let sh = bit_length n - 24;
            m = n div 2 ^ sh;
            r = n mod 2 ^ sh;
            half = 2 ^ (sh - 1);
            m1 = (if half < r \<or> (r = half \<and> odd m) then m + 1 else m);
            sh1 = (if m1 = 2 ^ 24 then sh + 1 else sh);
            m2 = (if m1 = 2 ^ 24 then 2 ^ 23 else m1)
        in if 255 \<le> sh1 + 1 then f32_pack s 255 0 else f32_pack s (sh1 + 1) (m2 - 2 ^ 23))"

definition f32_quiet_nan :: nat where
  "f32_quiet_nan = 0x7FC00000"

text \<open>
  Addition.  Which NaN an invalid operation yields depends on the processor; the model
  returns the quiet NaN \<open>0x7FC00000\<close> and nothing below depends on a NaN's payload.
\<close>

definition f32_add_bits :: "nat \<Rightarrow> nat \<Rightarrow> nat" where
  "f32_add_bits x y =
     (if f32_nan x \<or> f32_nan y then f32_quiet_nan
      else if f32_inf x then
        (if f32_inf y \<and> f32_negative x \<noteq> f32_negative y then f32_quiet_nan else x)
      else if f32_inf y then y
      else
        let z = f32_units x + f32_units y
        in if z = 0 then (if f32_negative x \<and> f32_negative y then 2 ^ 31 else 0)
           else f32_round (z < 0) (nat \<bar>z\<bar>))"

definition f32_neg_bits :: "nat \<Rightarrow> nat" where
  "f32_neg_bits x = (if f32_negative x then x - 2 ^ 31 else x + 2 ^ 31)"

text \<open>The key of a non-NaN value in the order of the extended reals.\<close>

definition f32_key :: "nat \<Rightarrow> int" where
  "f32_key b =
     (if f32_inf b then (if f32_negative b then - (2 ^ 278) else 2 ^ 278) else f32_units b)"

definition f32_lt_bits :: "nat \<Rightarrow> nat \<Rightarrow> bool" where
  "f32_lt_bits x y = (\<not> f32_nan x \<and> \<not> f32_nan y \<and> f32_key x < f32_key y)"

definition f32_add :: "float32 \<Rightarrow> float32 \<Rightarrow> float32" where
  "f32_add x y = of_nat (f32_add_bits (unat x) (unat y))"

definition f32_sub :: "float32 \<Rightarrow> float32 \<Rightarrow> float32" where
  "f32_sub x y = of_nat (f32_add_bits (unat x) (f32_neg_bits (unat y)))"

definition f32_lt :: "float32 \<Rightarrow> float32 \<Rightarrow> bool" where
  "f32_lt x y = f32_lt_bits (unat x) (unat y)"

definition f32_gt :: "float32 \<Rightarrow> float32 \<Rightarrow> bool" where
  "f32_gt x y = f32_lt y x"

definition f32_finite :: "float32 \<Rightarrow> bool" where
  "f32_finite x = (f32_exponent (unat x) \<noteq> 255)"

text \<open>The rational number a finite binary32 pattern denotes.\<close>

definition f32_val :: "float32 \<Rightarrow> rat" where
  "f32_val x = of_int (f32_units (unat x)) / 2 ^ 149"

subsection \<open>Tasks, configuration, readings (queue.go, config.go)\<close>

record Task =
  ID :: string
  Param :: string
  Code :: byte
  Time :: int

text \<open>The field \<^verbatim>\<open>ID\<close> of \<^verbatim>\<open>Config\<close> is \<open>Config_ID\<close> here: \<open>ID\<close> is the task's.\<close>

record Config =
  Config_ID :: string
  Enable :: bool
  I2CAddr :: byte
  EnableCa :: bool
  EnableAlk :: bool
  EnableMg :: bool
  EnableNo3 :: bool
  EnablePo4 :: bool
  ScheduleCa :: string
  ScheduleAlk :: string
  ScheduleMg :: string
  ScheduleNo3 :: string
  SchedulePo4 :: string
  ReagentUseCa :: float32
  ReagentUseAlk :: float32
  ReagentUseMg :: float32
  ReagentUseNo3 :: float32
  ReagentUsePo4 :: float32
  ReagentStartCa :: float32
  ReagentStartAlk :: float32
  ReagentStartMg :: float32
  ReagentStartNo3 :: float32
  ReagentStartPo4 :: float32
  ReagentRemainCa :: float32
  ReagentRemainAlk :: float32
  ReagentRemainMg :: float32
  ReagentRemainNo3 :: float32
  ReagentRemainPo4 :: float32
  WasteThreshold :: float32
  WasteRemaining :: float32

text \<open>The local type \<^verbatim>\<open>record\<close> of \<^verbatim>\<open>storeResult\<close>.\<close>

record Reading =
  Reading_Param :: string
  Ts :: int
  Value :: float32

datatype error =
    InProgress string        \<comment> \<open>task for p already in progress\<close>
  | AlreadyQueued string     \<comment> \<open>task for p already queued\<close>
  | NoQueuedTask string      \<comment> \<open>no queued task for p\<close>
  | TaskRunning string       \<comment> \<open>cannot cancel, task for p is running\<close>
  | ReagentEmpty string      \<comment> \<open>P reagent empty\<close>
  | WasteThresholdReached    \<comment> \<open>waste threshold reached\<close>
  | StoreError               \<comment> \<open>an error of the store\<close>
  | BusError                 \<comment> \<open>an error of the I2C bus\<close>

fun error_text :: "error \<Rightarrow> string" where
  "error_text (InProgress p) = ''task for '' @ p @ '' already in progress''"
| "error_text (AlreadyQueued p) = ''task for '' @ p @ '' already queued''"
| "error_text (NoQueuedTask p) = ''no queued task for '' @ p"
| "error_text (TaskRunning p) = ''cannot cancel, task for '' @ p @ '' is running''"
| "error_text (ReagentEmpty l) = l @ '' reagent empty''"
| "error_text WasteThresholdReached = ''waste threshold reached''"
| "error_text StoreError = ''%v''"
| "error_text BusError = ''%v''"

subsection \<open>The key-value store\<close>

text \<open>
  Modelled from the spec: the store behind \<^verbatim>\<open>controller.Store()\<close> and \<^verbatim>\<open>storeIface\<close>
  (\<^verbatim>\<open>Get\<close>, \<^verbatim>\<open>List\<close>, \<^verbatim>\<open>Create\<close>, \<^verbatim>\<open>Update\<close>, \<^verbatim>\<open>Delete\<close>) is not among the sources.  The
  spec describes a bucketed persistent map of JSON records with store-generated keys,
  unique within a bucket, and atomic single-key operations.  Each of the three buckets
  is an association list in the order in which \<^verbatim>\<open>List\<close> visits it; \<^verbatim>\<open>Create\<close> draws the
  key from a sequence number and the new entry is visited last.  A record is stored as
  the value it decodes to; JSON has no NaN and no infinity, so writing a record with such
  a \<^verbatim>\<open>float32\<close> fails and leaves the store as it was.  Whether \<^verbatim>\<open>Update\<close> of a key that is not there stores the record
  or reports an error is left open (\<open>put_on_update\<close>).
\<close>

record Store =
  configs :: "(string \<times> Config) list"
  readings :: "(string \<times> Reading) list"
  tasks :: "(string \<times> Task) list"
  sequence :: nat
  put_on_update :: bool

fun digits :: "nat \<Rightarrow> string" where
  "digits n =
     (if n < 10 then [char_of (48 + n)] else digits (n div 10) @ [char_of (48 + n mod 10)])"

declare digits.simps [simp del]

definition next_key :: "Store \<Rightarrow> string" where
  "next_key st = digits (Suc (sequence st))"

definition json_Config :: "Config \<Rightarrow> bool" where
  "json_Config c =
     (f32_finite (ReagentUseCa c) \<and> f32_finite (ReagentUseAlk c) \<and> f32_finite (ReagentUseMg c) \<and>
      f32_finite (ReagentUseNo3 c) \<and> f32_finite (ReagentUsePo4 c) \<and>
      f32_finite (ReagentStartCa c) \<and> f32_finite (ReagentStartAlk c) \<and>
      f32_finite (ReagentStartMg c) \<and> f32_finite (ReagentStartNo3 c) \<and>
      f32_finite (ReagentStartPo4 c) \<and>
      f32_finite (ReagentRemainCa c) \<and> f32_finite (ReagentRemainAlk c) \<and>
      f32_finite (ReagentRemainMg c) \<and> f32_finite (ReagentRemainNo3 c) \<and>
      f32_finite (ReagentRemainPo4 c) \<and>
      f32_finite (WasteThreshold c) \<and> f32_finite (WasteRemaining c))"

definition json_Reading :: "Reading \<Rightarrow> bool" where
  "json_Reading r = f32_finite (Value r)"

definition has_key :: "string \<Rightarrow> (string \<times> 'a) list \<Rightarrow> bool" where
  "has_key k kvs = (k \<in> set (map fst kvs))"

fun put :: "string \<Rightarrow> 'a \<Rightarrow> (string \<times> 'a) list \<Rightarrow> (string \<times> 'a) list" where
  "put k v [] = [(k, v)]"
| "put k v ((k', v') # kvs) = (if k' = k then (k, v) # kvs else (k', v') # put k v kvs)"

definition Get_config :: "string \<Rightarrow> Store \<Rightarrow> error + Config" where
  "Get_config key st = (case map_of (configs st) key of None \<Rightarrow> Inl StoreError | Some c \<Rightarrow> Inr c)"

definition Update_config :: "string \<Rightarrow> Config \<Rightarrow> Store \<Rightarrow> (error + unit) \<times> Store" where
  "Update_config key c st =
     (if \<not> json_Config c then (Inl StoreError, st)
      else if has_key key (configs st) \<or> put_on_update st
        then (Inr (), st\<lparr>configs := put key c (configs st)\<rparr>)
      else (Inl StoreError, st))"

definition Create_config :: "(string \<Rightarrow> Config) \<Rightarrow> Store \<Rightarrow> (error + unit) \<times> Store" where
  "Create_config fn st =
     (let key = next_key st
      in if \<not> json_Config (fn key) then (Inl StoreError, st)
         else (Inr (), st\<lparr>sequence := Suc (sequence st), configs := configs st @ [(key, fn key)]\<rparr>))"

definition Create_reading :: "(string \<Rightarrow> Reading) \<Rightarrow> Store \<Rightarrow> (error + unit) \<times> Store" where
  "Create_reading fn st =
     (let key = next_key st
      in if \<not> json_Reading (fn key) then (Inl StoreError, st)
         else (Inr (), st\<lparr>sequence := Suc (sequence st), readings := readings st @ [(key, fn key)]\<rparr>))"

definition Create_task :: "(string \<Rightarrow> Task) \<Rightarrow> Store \<Rightarrow> (error + unit) \<times> Store" where
  "Create_task fn st =
     (let key = next_key st
      in (Inr (), st\<lparr>sequence := Suc (sequence st), tasks := tasks st @ [(key, fn key)]\<rparr>))"

definition Delete_task :: "string \<Rightarrow> Store \<Rightarrow> (error + unit) \<times> Store" where
  "Delete_task key st = (Inr (), st\<lparr>tasks := filter (\<lambda>(k, t). k \<noteq> key) (tasks st)\<rparr>)"

subsection \<open>The persistent queue (queue.go)\<close>

text \<open>
  \<^verbatim>\<open>Queue.store\<close> and the controller's \<^verbatim>\<open>c.Store()\<close> are one object; the model keeps it
  once, in the queue.  Every method runs under \<^verbatim>\<open>q.mu\<close>, so each is one atomic step;
  \<open>signals\<close> counts the calls of \<^verbatim>\<open>q.cond.Signal()\<close>, and \<open>now\<close> is \<^verbatim>\<open>time.Now().Unix()\<close>.
\<close>

record Queue =
  store :: Store
  current :: "Task option"
  signals :: nat

definition is_current :: "Queue \<Rightarrow> string \<Rightarrow> bool" where
  "is_current q param = (case current q of None \<Rightarrow> False | Some c \<Rightarrow> Param c = param)"

definition AddTask :: "string \<Rightarrow> byte \<Rightarrow> int \<Rightarrow> Queue \<Rightarrow> (error + unit) \<times> Queue" where
  "AddTask param code now q =
     (if is_current q param then (Inl (InProgress param), q)
      else if find (\<lambda>(key, t). Param t = param) (tasks (store q)) \<noteq> None
        then (Inl (AlreadyQueued param), q)
      else
        (case Create_task (\<lambda>key. \<lparr>ID = key, Param = param, Code = code, Time = now\<rparr>) (store q) of
           (Inl err, st) \<Rightarrow> (Inl err, q\<lparr>store := st\<rparr>)
         | (Inr _, st) \<Rightarrow> (Inr (), q\<lparr>store := st, signals := Suc (signals q)\<rparr>)))"

definition RemoveTask :: "string \<Rightarrow> Queue \<Rightarrow> (error + unit) \<times> Queue" where
  "RemoveTask param q =
     (let deleteID = (case find (\<lambda>(key, t). Param t = param) (tasks (store q)) of
                        None \<Rightarrow> [] | Some (key, t) \<Rightarrow> key)
      in if deleteID = [] then (Inl (NoQueuedTask param), q)
         else if is_current q param then (Inl (TaskRunning param), q)
         else (case Delete_task deleteID (store q) of (r, st) \<Rightarrow> (r, q\<lparr>store := st\<rparr>)))"

text \<open>
  \<^verbatim>\<open>ListTasks\<close> sorts with \<^verbatim>\<open>sort.Slice(tasks, less)\<close>, where \<^verbatim>\<open>less(i, j)\<close> is
  \<^verbatim>\<open>tasks[i].Time < tasks[j].Time\<close>.  \<^verbatim>\<open>sort.Slice\<close> is the Go library's (Go 1.19 and
  later; the workflow file asks for 1.20 or later): \<^verbatim>\<open>pdqsort_func(data, 0, n, bits.Len(n))\<close>.
  \<open>Less\<close> and \<open>Swap\<close> are the two operations it has on the slice.
\<close>

definition Less :: "Task list \<Rightarrow> nat \<Rightarrow> nat \<Rightarrow> bool" where
  "Less d i j = (Time (d ! i) < Time (d ! j))"

definition Swap :: "Task list \<Rightarrow> nat \<Rightarrow> nat \<Rightarrow> Task list" where
  "Swap d i j = d[i := d ! j, j := d ! i]"

text \<open>
  \<^verbatim>\<open>insertionSort_func(data, 0, n)\<close>: each element in turn is swapped leftwards while it is
  less than its left neighbour.  \<open>move_left x xs\<close> is the inner loop, for the element \<open>x\<close>
  that follows the sorted prefix \<open>xs\<close>.
\<close>

function move_left :: "Task \<Rightarrow> Task list \<Rightarrow> Task list" where
  "move_left x xs =
     (if xs \<noteq> [] \<and> Time x < Time (last xs) then move_left x (butlast xs) @ [last xs]
      else xs @ [x])"
  by pat_completeness auto
termination
  by (relation "measure (\<lambda>(x, xs). length xs)") auto

declare move_left.simps [simp del]

definition insertionSort_func :: "Task list \<Rightarrow> Task list" where
  "insertionSort_func ts = foldl (\<lambda>sorted x. move_left x sorted) [] ts"

text \<open>
  \<^verbatim>\<open>choosePivot_func(data, 0, n)\<close> for \<open>n < 50\<close> (from 50 elements on the pivot is a
  ninther): the median of the elements at \<open>n/4\<close>, \<open>2n/4\<close> and \<open>3n/4\<close>, found by
  \<^verbatim>\<open>median_func\<close> with three calls of \<^verbatim>\<open>order2_func\<close>, which count the pairs found out
  of order.
\<close>

datatype sortedHint = unknownHint | increasingHint | decreasingHint

definition order2_func :: "Task list \<Rightarrow> nat \<Rightarrow> nat \<Rightarrow> nat \<Rightarrow> nat \<times> nat \<times> nat" where
  "order2_func d a b swaps = (if Less d b a then (b, a, swaps + 1) else (a, b, swaps))"

definition median_func :: "Task list \<Rightarrow> nat \<Rightarrow> nat \<Rightarrow> nat \<Rightarrow> nat \<Rightarrow> nat \<times> nat" where
  "median_func d a b c swaps =
     (case order2_func d a b swaps of
        (a1, b1, s1) \<Rightarrow>
          (case order2_func d b1 c s1 of
             (b2, c2, s2) \<Rightarrow>
               (case order2_func d a1 b2 s2 of (a3, b3, s3) \<Rightarrow> (b3, s3))))"

definition choosePivot_func :: "Task list \<Rightarrow> nat \<times> sortedHint" where
  "choosePivot_func d =
     (let l = length d;
          i = l div 4 * 1; j = l div 4 * 2; k = l div 4 * 3;
          (pivot, swaps) = (if 8 \<le> l then median_func d i j k 0 else (j, 0))
      in (pivot,
          if swaps = 0 then increasingHint
          else if swaps = 12 then decreasingHint else unknownHint))"

text \<open>
  \<^verbatim>\<open>partialInsertionSort_func(data, 0, n)\<close> for \<open>n < 50\<close>: it looks for the first element
  that is less than its left neighbour (\<open>first_descent\<close>), reports \<open>true\<close> if there is
  none, and otherwise gives up without moving anything (slices shorter than
  \<^verbatim>\<open>shortestShifting = 50\<close> are not shifted).
\<close>

function first_descent :: "Task list \<Rightarrow> nat \<Rightarrow> nat" where
  "first_descent d i =
     (if i < length d \<and> \<not> Less d i (i - 1) then first_descent d (i + 1) else i)"
  by pat_completeness auto
termination
  by (relation "measure (\<lambda>(d, i). length d - i)") auto

declare first_descent.simps [simp del]

definition partialInsertionSort_func :: "Task list \<Rightarrow> bool" where
  "partialInsertionSort_func d = (first_descent d 1 = length d)"

text \<open>
  \<^verbatim>\<open>partition_func(data, 0, n, pivot)\<close>.  The pivot is swapped to the front; \<open>i\<close> runs up
  from 1 over the elements less than the pivot (\<open>ScanUp\<close>), \<open>j\<close> runs down from \<open>n - 1\<close>
  over the elements not less than it (\<open>ScanDown\<close>); when they have not crossed, the two
  elements are exchanged and both indices step on (\<open>Exchange\<close>); at the end the pivot
  is swapped to \<open>j\<close>, which is returned.  The source has the first round of the three
  steps ahead of its loop, to report whether any exchange was needed; that report is
  only read by later rounds of \<^verbatim>\<open>pdqsort_func\<close>.  \<open>i\<close> is never below 1, so \<open>j\<close> is never
  below 0.
\<close>

datatype partition_step = ScanUp | ScanDown | Exchange

function partition_loop :: "partition_step \<Rightarrow> Task list \<Rightarrow> nat \<Rightarrow> nat \<Rightarrow> Task list \<times> nat" where
  "partition_loop ScanUp d i j =
     (if i \<le> j \<and> Less d i 0 then partition_loop ScanUp d (i + 1) j
      else partition_loop ScanDown d i j)"
| "partition_loop ScanDown d i j =
     (if 0 < i \<and> i \<le> j \<and> \<not> Less d j 0 then partition_loop ScanDown d i (j - 1)
      else partition_loop Exchange d i j)"
| "partition_loop Exchange d i j =
     (if j < i then (d, j)
      else partition_loop ScanUp (Swap d i j) (i + 1) (j - 1))"
  by pat_completeness auto
termination
  by (relation "measure (\<lambda>(s, d, i, j).
        3 * (j + 1 - i) + (case s of ScanUp \<Rightarrow> 2 | ScanDown \<Rightarrow> 1 | Exchange \<Rightarrow> 0))")
     auto

declare partition_loop.simps [simp del]

definition partition_func :: "Task list \<Rightarrow> nat \<Rightarrow> Task list \<times> nat" where
  "partition_func d pivot =
     (case partition_loop ScanUp (Swap d 0 pivot) 1 (length d - 1) of
        (d1, j) \<Rightarrow> (Swap d1 j 0, j))"

text \<open>
  \<^verbatim>\<open>pdqsort_func(data, 0, n, limit)\<close>.  Up to 12 elements it is the insertion sort.
  Beyond, the first round of its loop is modelled for \<open>n < 50\<close>: the pivot is chosen; a
  slice that looks sorted (no pair out of order at the pivot candidates) and is sorted
  is returned as it is; otherwise the slice is partitioned, and each side of the pivot
  is sorted in turn, by the insertion sort when it has at most 12 elements (always so
  for 13 elements).  What the library does in the other cases (a side longer than 12,
  50 elements or more: further rounds, ninther pivots, \<^verbatim>\<open>breakPatterns_func\<close>, the
  heap sort) is not modelled: it is the parameter \<open>rest\<close>, of which the statements below
  assume only what the library documents, that the slice comes back sorted by \<^verbatim>\<open>less\<close>,
  not necessarily stably.  The hint \<open>decreasingHint\<close> takes 12 pairs out of order, which
  three comparisons never give.
\<close>

definition pdqsort_func :: "(Task list \<Rightarrow> Task list) \<Rightarrow> Task list \<Rightarrow> Task list" where
  "pdqsort_func rest d =
     (if length d \<le> 12 then insertionSort_func d
      else if 50 \<le> length d then rest d
      else
        (case choosePivot_func d of
           (pivot, hint) \<Rightarrow>
             if hint = decreasingHint then rest d
             else if hint = increasingHint \<and> partialInsertionSort_func d then d
             else
               (case partition_func d pivot of
                  (d1, mid) \<Rightarrow>
                    if mid \<le> 12 \<and> length d - (mid + 1) \<le> 12
                    then insertionSort_func (take mid d1) @ [d1 ! mid] @
                           insertionSort_func (drop (mid + 1) d1)
                    else rest d)))"

definition sort_Slice :: "(Task list \<Rightarrow> Task list) \<Rightarrow> Task list \<Rightarrow> Task list" where
  "sort_Slice rest d = pdqsort_func rest d"

definition ListTasks :: "(Task list \<Rightarrow> Task list) \<Rightarrow> Queue \<Rightarrow> error + Task list" where
  "ListTasks rest q = Inr (sort_Slice rest (map snd (tasks (store q))))"

text \<open>
  One round of the loop of \<^verbatim>\<open>ProcessTasks\<close>: \<open>next_task\<close> is the scan for the oldest
  entry (\<open>scan\<close> is the callback; the first one visited wins among equals, the
  comparison being strict), \<open>dequeue\<close>
  the part under the lock up to \<^verbatim>\<open>q.current = next\<close>, \<open>mark_done\<close> the part after the
  worker has returned.  With an empty bucket the loop waits and \<open>dequeue\<close> yields no task.
\<close>

definition scan :: "(string \<times> Task) option \<Rightarrow> string \<times> Task \<Rightarrow> (string \<times> Task) option" where
  "scan nxt kv =
     (case nxt of
        None \<Rightarrow> Some kv
      | Some (k, n) \<Rightarrow> if Time (snd kv) < Time n then Some kv else Some (k, n))"

definition next_task :: "(string \<times> Task) list \<Rightarrow> (string \<times> Task) option" where
  "next_task kvs = foldl scan None kvs"

definition dequeue :: "Queue \<Rightarrow> Task option \<times> Queue" where
  "dequeue q =
     (case next_task (tasks (store q)) of
        None \<Rightarrow> (None, q)
      | Some (nextKey, nxt) \<Rightarrow>
          (Some nxt, q\<lparr>store := snd (Delete_task nextKey (store q)), current := Some nxt\<rparr>))"

definition mark_done :: "Queue \<Rightarrow> Queue" where
  "mark_done q = q\<lparr>current := None\<rparr>"

subsection \<open>The controller: bus, log, configuration (manager.go)\<close>

text \<open>
  The analyzer on the I2C bus is outside the program.  \<open>written\<close> records the payloads
  the bus has accepted, oldest first; \<open>write_errors\<close> gives the outcome of the coming calls
  of \<^verbatim>\<open>WriteBytes\<close> (\<open>True\<close>: an error), success once it is used up; \<open>replies\<close> gives the
  answers to the coming calls of \<^verbatim>\<open>ReadBytes\<close> (\<open>None\<close>: an error).  When \<open>replies\<close> is used
  up the model knows nothing more about the device and a computation that reads has no
  result (\<open>None\<close>): a task that polls for ever is one that has no result for any
  continuation of the replies.
\<close>

record Bus =
  written :: "(byte \<times> byte list) list"
  write_errors :: "bool list"
  replies :: "byte list option list"

text \<open>
  A log line is kept as the format string and its arguments, unformatted and without
  the clock prefix of \<^verbatim>\<open>appendLog\<close>.
\<close>

datatype log_arg = S string | F float32 | X byte | W "32 word" | V error

type_synonym log_line = "string \<times> log_arg list"

text \<open>The schedulers (\<^verbatim>\<open>quitters\<close>) take no part in what follows and are left out.\<close>

record Controller =
  queue :: Queue
  bus :: Bus
  devMode :: bool
  logs :: "log_line list"
  currentParam :: string

definition WriteBytes :: "byte \<Rightarrow> byte list \<Rightarrow> Controller \<Rightarrow> (error + unit) \<times> Controller" where
  "WriteBytes addr bs m =
     (case write_errors (bus m) of
        [] \<Rightarrow> (Inr (), m\<lparr>bus := (bus m)\<lparr>written := written (bus m) @ [(addr, bs)]\<rparr>\<rparr>)
      | e # es \<Rightarrow>
          if e then (Inl BusError, m\<lparr>bus := (bus m)\<lparr>write_errors := es\<rparr>\<rparr>)
          else (Inr (), m\<lparr>bus := (bus m)\<lparr>written := written (bus m) @ [(addr, bs)],
                                            write_errors := es\<rparr>\<rparr>))"

text \<open>A successful \<^verbatim>\<open>ReadBytes(addr, n)\<close> returns a buffer of \<open>n\<close> bytes.\<close>

definition ReadBytes :: "byte \<Rightarrow> nat \<Rightarrow> Controller \<Rightarrow> ((error + byte list) \<times> Controller) option" where
  "ReadBytes addr n m =
     (case replies (bus m) of
        [] \<Rightarrow> None
      | r # rs \<Rightarrow>
          Some (case r of None \<Rightarrow> Inl BusError | Some bs \<Rightarrow> Inr (take n (bs @ replicate n 0)),
                m\<lparr>bus := (bus m)\<lparr>replies := rs\<rparr>\<rparr>))"

definition LittleEndian_Uint32 :: "byte list \<Rightarrow> 32 word" where
  "LittleEndian_Uint32 b =
     ucast (b ! 0) OR push_bit 8 (ucast (b ! 1)) OR push_bit 16 (ucast (b ! 2))
       OR push_bit 24 (ucast (b ! 3))"

definition LittleEndian_PutUint32 :: "32 word \<Rightarrow> byte list" where
  "LittleEndian_PutUint32 v =
     [ucast v, ucast (drop_bit 8 v), ucast (drop_bit 16 v), ucast (drop_bit 24 v)]"

text \<open>\<^verbatim>\<open>math.Float32bits\<close> and \<^verbatim>\<open>math.Float32frombits\<close> are the identity on bit patterns.\<close>

definition set_store :: "Store \<Rightarrow> Controller \<Rightarrow> Controller" where
  "set_store st m = m\<lparr>queue := (queue m)\<lparr>store := st\<rparr>\<rparr>"

definition appendLog :: "log_line \<Rightarrow> Controller \<Rightarrow> Controller" where
  "appendLog entry m =
     (let l = logs m @ [entry]
      in m\<lparr>logs := (if 100 < length l then drop (length l - 100) l else l)\<rparr>)"

definition Get :: "string \<Rightarrow> Controller \<Rightarrow> error + Config" where
  "Get key m = Get_config key (store (queue m))"

definition CreateOrUpdate :: "Config \<Rightarrow> Controller \<Rightarrow> (error + unit) \<times> Controller" where
  "CreateOrUpdate cfg m =
     (case Update_config (Config_ID cfg) cfg (store (queue m)) of
        (Inr u, st) \<Rightarrow> (Inr (), set_store st m)
      | (Inl err, st) \<Rightarrow>
          (case Create_config (\<lambda>key. cfg\<lparr>Config_ID := key\<rparr>) (store (queue m)) of
             (r, st') \<Rightarrow> (r, set_store st' m)))"

definition getConfigI2C :: "Controller \<Rightarrow> byte" where
  "getConfigI2C m = (case Get ''default'' m of Inl err \<Rightarrow> 0x10 | Inr cfg \<Rightarrow> I2CAddr cfg)"

definition readFloat :: "byte \<Rightarrow> Controller \<Rightarrow> ((error + float32) \<times> Controller) option" where
  "readFloat opcode m =
     (let addr = getConfigI2C m
      in case WriteBytes addr [opcode] m of
           (Inl err, m1) \<Rightarrow> Some (Inl err, m1)
         | (Inr u, m1) \<Rightarrow>
             (case ReadBytes addr 4 m1 of
                None \<Rightarrow> None
              | Some (Inl err, m2) \<Rightarrow> Some (Inl err, m2)
              | Some (Inr data, m2) \<Rightarrow> Some (Inr (LittleEndian_Uint32 data), m2)))"

text \<open>
  The constants of \<^verbatim>\<open>Setup\<close>: \<open>2.0\<close>, \<open>500.0\<close>, \<open>1000.0\<close> and \<open>0.0\<close> as binary32; the
  fields the literal does not name have Go's zero values.
\<close>

definition defaultCfg :: Config where
  "defaultCfg =
     \<lparr>Config_ID = ''default'', Enable = False, I2CAddr = 0x10,
      EnableCa = False, EnableAlk = False, EnableMg = False, EnableNo3 = False,
      EnablePo4 = False,
      ScheduleCa = [], ScheduleAlk = [], ScheduleMg = [], ScheduleNo3 = [], SchedulePo4 = [],
      ReagentUseCa = 0x40000000, ReagentUseAlk = 0x40000000, ReagentUseMg = 0x40000000,
      ReagentUseNo3 = 0x40000000, ReagentUsePo4 = 0x40000000,
      ReagentStartCa = 0x43FA0000, ReagentStartAlk = 0x43FA0000, ReagentStartMg = 0x43FA0000,
      ReagentStartNo3 = 0x43FA0000, ReagentStartPo4 = 0x43FA0000,
      ReagentRemainCa = 0x43FA0000, ReagentRemainAlk = 0x43FA0000, ReagentRemainMg = 0x43FA0000,
      ReagentRemainNo3 = 0x43FA0000, ReagentRemainPo4 = 0x43FA0000,
      WasteThreshold = 0x447A0000, WasteRemaining = 0\<rparr>"

definition Setup :: "Controller \<Rightarrow> (error + unit) \<times> Controller" where
  "Setup m =
     (case Update_config (Config_ID defaultCfg) defaultCfg (store (queue m)) of
        (Inr u, st) \<Rightarrow> (Inr (), set_store st m)
      | (Inl err, st) \<Rightarrow>
          (case Create_config (\<lambda>key. defaultCfg\<lparr>Config_ID := key\<rparr>) (store (queue m)) of
             (Inl err2, st') \<Rightarrow> (Inl err2, set_store st' m)
           | (Inr u, st') \<Rightarrow> (Inr (), set_store st' m)))"

definition storeResult :: "string \<Rightarrow> float32 \<Rightarrow> int \<Rightarrow> Controller \<Rightarrow> (error + unit) \<times> Controller" where
  "storeResult param val now m =
     (let rec = \<lparr>Reading_Param = param, Ts = now, Value = val\<rparr>
      in case Create_reading (\<lambda>key. rec) (store (queue m)) of (r, st) \<Rightarrow> (r, set_store st m))"

definition canEnqueueTest :: "string \<Rightarrow> float32 \<Rightarrow> Controller \<Rightarrow> error + unit" where
  "canEnqueueTest param use m =
     (case Get ''default'' m of
        Inl err \<Rightarrow> Inl err
      | Inr cfg \<Rightarrow>
          (let waste = (if f32_gt (f32_add (WasteRemaining cfg) use) (WasteThreshold cfg)
                        then Inl WasteThresholdReached else Inr ())
           in if param = ''ca'' then
                (if f32_lt (ReagentRemainCa cfg) use then Inl (ReagentEmpty ''CA'') else waste)
              else if param = ''alk'' then
                (if f32_lt (ReagentRemainAlk cfg) use then Inl (ReagentEmpty ''ALK'') else waste)
              else if param = ''mg'' then
                (if f32_lt (ReagentRemainMg cfg) use then Inl (ReagentEmpty ''MG'') else waste)
              else if param = ''no3'' then
                (if f32_lt (ReagentRemainNo3 cfg) use then Inl (ReagentEmpty ''NO3'') else waste)
              else if param = ''po4'' then
                (if f32_lt (ReagentRemainPo4 cfg) use then Inl (ReagentEmpty ''PO4'') else waste)
              else Inr ()))"

subsection \<open>Strings\<close>

text \<open>
  \<^verbatim>\<open>strings.HasPrefix\<close>, \<^verbatim>\<open>strings.TrimPrefix\<close> and \<^verbatim>\<open>strings.ToUpper\<close>, the last on ASCII
  (the parameter names are ASCII).
\<close>

definition HasPrefix :: "string \<Rightarrow> string \<Rightarrow> bool" where
  "HasPrefix s pre = (take (length pre) s = pre)"

definition TrimPrefix :: "string \<Rightarrow> string \<Rightarrow> string" where
  "TrimPrefix s pre = (if HasPrefix s pre then drop (length pre) s else s)"

definition ToUpper :: "string \<Rightarrow> string" where
  "ToUpper s =
     map (\<lambda>c. if CHR ''a'' \<le> c \<and> c \<le> CHR ''z'' then char_of (of_char c - (32 :: nat)) else c) s"

subsection \<open>The task executor (executeTask)\<close>

text \<open>
  \<^verbatim>\<open>executeTask\<close> has four copies of the status poll: sleep, write \<open>0x31\<close> (the outcome is
  dropped), read one byte, leave with the log line of the branch on a read error, leave
  the loop on status \<open>0\<close>.  Only the copy of the test sequence has the check
  \<^verbatim>\<open>st[0] == 2\<close>; \<open>check_error\<close> says whether the copy has it.  The sleeps are not modelled.
\<close>

datatype poll_exit = PollIdle | PollReadError | PollDeviceError

function poll :: "bool \<Rightarrow> Controller \<Rightarrow> (poll_exit \<times> Controller) option" where
  "poll check_error m =
     (let m1 = snd (WriteBytes (getConfigI2C m) [0x31] m)
      in case ReadBytes (getConfigI2C m1) 1 m1 of
           None \<Rightarrow> None
         | Some (Inl err, m2) \<Rightarrow> Some (PollReadError, m2)
         | Some (Inr st, m2) \<Rightarrow>
             if check_error \<and> st ! 0 = 2 then Some (PollDeviceError, m2)
             else if st ! 0 = 0 then Some (PollIdle, m2)
             else poll check_error m2)"
  by pat_completeness auto
termination
  by (relation "measure (\<lambda>(c, m). length (replies (bus m)))")
     (auto simp: ReadBytes_def WriteBytes_def split: list.splits if_splits)

declare poll.simps [simp del]

text \<open>The return statement by which \<^verbatim>\<open>executeTask\<close> is left.\<close>

datatype task_exit = StartError | StatusError | DeviceError | ResultReadError | Completed

text \<open>The branch of a parameter calibration, \<^verbatim>\<open>cal_<p>\<close>.\<close>

definition calibration_task :: "string \<Rightarrow> byte \<Rightarrow> Controller \<Rightarrow> (task_exit \<times> Controller) option" where
  "calibration_task param code m =
     (let real = TrimPrefix param ''cal_''; label = ToUpper real
      in case WriteBytes (getConfigI2C m) [code] m of
           (Inl err, m1) \<Rightarrow>
             Some (StartError, appendLog (''%s: Calibration start error: %v'', [S label, V err]) m1)
         | (Inr u, m1) \<Rightarrow>
             (case poll False m1 of
                None \<Rightarrow> None
              | Some (PollReadError, m2) \<Rightarrow>
                  Some (StatusError, appendLog (''%s: Status error: %v'', [S label, V BusError]) m2)
              | Some (PollDeviceError, m2) \<Rightarrow> None
              | Some (PollIdle, m2) \<Rightarrow>
                  (let readOp = (if real = ''ca'' then 0x36 else if real = ''alk'' then 0x37
                                 else if real = ''mg'' then 0x38 else if real = ''no3'' then 0x39
                                 else if real = ''po4'' then 0x3A else code)
                   in case readFloat readOp m2 of
                        None \<Rightarrow> None
                      | Some (r, m3) \<Rightarrow>
                          (let m4 = (case r of
                                       Inl err \<Rightarrow> m3
                                     | Inr val \<Rightarrow>
                                         appendLog (''%s: Calibration finished. Updated calibration factor: %.3f'',
                                                    [S label, F val]) m3)
                           in Some (Completed, m4\<lparr>currentParam := []\<rparr>)))))"

text \<open>The branch of a flush, \<^verbatim>\<open>flush_<p>\<close>.\<close>

definition flush_task :: "string \<Rightarrow> byte \<Rightarrow> Controller \<Rightarrow> (task_exit \<times> Controller) option" where
  "flush_task param code m0 =
     (let real = TrimPrefix param ''flush_''; label = ToUpper real;
          m = appendLog (''%s: Flush started'', [S label]) m0
      in case WriteBytes (getConfigI2C m) [code] m of
           (Inl err, m1) \<Rightarrow>
             Some (StartError, appendLog (''%s: Flush start error: %v'', [S label, V err]) m1)
         | (Inr u, m1) \<Rightarrow>
             (case poll False m1 of
                None \<Rightarrow> None
              | Some (PollReadError, m2) \<Rightarrow>
                  Some (StatusError, appendLog (''%s: Flush status err: %v'', [S label, V BusError]) m2)
              | Some (PollDeviceError, m2) \<Rightarrow> None
              | Some (PollIdle, m2) \<Rightarrow>
                  (let m3 = appendLog (''%s: Flush completed'', [S label]) m2
                   in case Get ''default'' m3 of
                        Inl err \<Rightarrow> Some (Completed, m3)
                      | Inr cfg \<Rightarrow>
                          (let cfg1 =
                                 (if real = ''ca'' then cfg\<lparr>ReagentRemainCa := ReagentStartCa cfg\<rparr>
                                  else if real = ''alk'' then cfg\<lparr>ReagentRemainAlk := ReagentStartAlk cfg\<rparr>
                                  else if real = ''mg'' then cfg\<lparr>ReagentRemainMg := ReagentStartMg cfg\<rparr>
                                  else if real = ''no3'' then cfg\<lparr>ReagentRemainNo3 := ReagentStartNo3 cfg\<rparr>
                                  else if real = ''po4'' then cfg\<lparr>ReagentRemainPo4 := ReagentStartPo4 cfg\<rparr>
                                  else cfg);
                               m4 = snd (CreateOrUpdate cfg1 m3)
                           in Some (Completed,
                                appendLog (''%s: Reagent refilled to start volume; Waste remaining: %.1f mL'',
                                           [S label, F (WasteRemaining cfg1)]) m4)))))"

text \<open>The branch of the pump calibration, \<^verbatim>\<open>pump\<close>.\<close>

definition pump_task :: "byte \<Rightarrow> Controller \<Rightarrow> (task_exit \<times> Controller) option" where
  "pump_task code m0 =
     (let m = appendLog (''PUMP: Calibration test started. Pumping 50.0 mL. Please wait...'', []) m0
      in case WriteBytes (getConfigI2C m) [code] m of
           (Inl err, m1) \<Rightarrow> Some (StartError, appendLog (''PUMP: Start error: %v'', [V err]) m1)
         | (Inr u, m1) \<Rightarrow>
             (case poll False m1 of
                None \<Rightarrow> None
              | Some (PollReadError, m2) \<Rightarrow>
                  Some (StatusError, appendLog (''PUMP: Status error: %v'', [V BusError]) m2)
              | Some (PollDeviceError, m2) \<Rightarrow> None
              | Some (PollIdle, m2) \<Rightarrow>
                  (let m3 = appendLog (''PUMP: Pumping finished. Please enter dispensed volume'', []) m2
                   in Some (Completed, m3\<lparr>currentParam := []\<rparr>))))"

text \<open>
  Step 5 of the test sequence: the reagent and waste accounting.  \<^verbatim>\<open>use\<close> and \<^verbatim>\<open>rem\<close>
  start as \<open>0.0\<close> and stay so for a parameter name the switch does not list.
\<close>

definition account_test :: "string \<Rightarrow> string \<Rightarrow> Controller \<Rightarrow> Controller" where
  "account_test param label m =
     (case Get ''default'' m of
        Inl err \<Rightarrow> m
      | Inr cfg \<Rightarrow>
          (let (use, cfg1, rem) =
                 (if param = ''ca'' then
                    (let use = ReagentUseCa cfg;
                         c = cfg\<lparr>ReagentRemainCa := f32_sub (ReagentRemainCa cfg) use\<rparr>
                     in (use, c, ReagentRemainCa c))
                  else if param = ''alk'' then
                    (let use = ReagentUseAlk cfg;
                         c = cfg\<lparr>ReagentRemainAlk := f32_sub (ReagentRemainAlk cfg) use\<rparr>
                     in (use, c, ReagentRemainAlk c))
                  else if param = ''mg'' then
                    (let use = ReagentUseMg cfg;
                         c = cfg\<lparr>ReagentRemainMg := f32_sub (ReagentRemainMg cfg) use\<rparr>
                     in (use, c, ReagentRemainMg c))
                  else if param = ''no3'' then
                    (let use = ReagentUseNo3 cfg;
                         c = cfg\<lparr>ReagentRemainNo3 := f32_sub (ReagentRemainNo3 cfg) use\<rparr>
                     in (use, c, ReagentRemainNo3 c))
                  else if param = ''po4'' then
                    (let use = ReagentUsePo4 cfg;
                         c = cfg\<lparr>ReagentRemainPo4 := f32_sub (ReagentRemainPo4 cfg) use\<rparr>
                     in (use, c, ReagentRemainPo4 c))
                  else (0, cfg, 0));
               cfg2 = cfg1\<lparr>WasteRemaining := f32_add (WasteRemaining cfg1) use\<rparr>;
               m1 = snd (CreateOrUpdate cfg2 m)
           in appendLog (''%s: Reagent remaining: %.1f mL; Waste: %.1f mL'',
                         [S label, F rem, F (WasteRemaining cfg2)]) m1))"

text \<open>The normal test sequence; \<open>now\<close> is the clock read by \<^verbatim>\<open>storeResult\<close>.\<close>

definition test_task :: "string \<Rightarrow> string \<Rightarrow> byte \<Rightarrow> int \<Rightarrow> Controller \<Rightarrow> (task_exit \<times> Controller) option" where
  "test_task param label code now m =
     (case WriteBytes (getConfigI2C m) [code] m of
        (Inl err, m1) \<Rightarrow> Some (StartError, appendLog (''%s: Start error: %v'', [S label, V err]) m1)
      | (Inr u, m1) \<Rightarrow>
          (case poll True m1 of
             None \<Rightarrow> None
           | Some (PollReadError, m2) \<Rightarrow>
               Some (StatusError, appendLog (''%s: Status err: %v'', [S label, V BusError]) m2)
           | Some (PollDeviceError, m2) \<Rightarrow>
               Some (DeviceError, appendLog (''%s: Device reported error'', [S label]) m2)
           | Some (PollIdle, m2) \<Rightarrow>
               (let m3 = snd (WriteBytes (getConfigI2C m2) [0x32] m2);
                    m4 = appendLog (''%s: Sent READ_RESULT command (0x32)'', [S label]) m3
                in case ReadBytes (getConfigI2C m4) 4 m4 of
                     None \<Rightarrow> None
                   | Some (Inl err, m5) \<Rightarrow>
                       Some (ResultReadError,
                             appendLog (''%s: Result read err: %v'', [S label, V err]) m5)
                   | Some (Inr data, m5) \<Rightarrow>
                       (let m6 = appendLog (''%s: Read raw bytes: [%x %x %x %x]'',
                                   [S label, X (data ! 0), X (data ! 1), X (data ! 2), X (data ! 3)]) m5;
                            bits = LittleEndian_Uint32 data;
                            m7 = appendLog (''%s: Raw bits: 0x%08x'', [S label, W bits]) m6;
                            val = bits;
                            m8 = appendLog (''%s: Converted to float32: %f'', [S label, F val]) m7;
                            m9 = snd (storeResult param val now m8);
                            m10 = appendLog (''%s: Test completed (%.2f)'', [S label, F val]) m9
                        in Some (Completed, account_test param label m10)))))"

text \<open>
  \<^verbatim>\<open>executeTask\<close>.  The source runs two chains of conditions one after the other (the
  first logs the start, or runs a calibration to its end; the second runs flush, pump or
  test); both test the same conditions in the same order, so the model has one chain.
\<close>

definition executeTask :: "Task \<Rightarrow> int \<Rightarrow> Controller \<Rightarrow> (task_exit \<times> Controller) option" where
  "executeTask task now m0 =
     (let param = Param task; code = Code task;
          m = m0\<lparr>currentParam := param\<rparr>;
          label = ToUpper (TrimPrefix param ''flush_'')
      in if HasPrefix param ''flush_'' then
           flush_task param code (appendLog (''%s: Flush started'', [S label]) m)
         else if param = ''pump'' then pump_task code m
         else if HasPrefix param ''cal_'' then calibration_task param code m
         else test_task param label code now (appendLog (''%s: Test started'', [S label]) m))"

subsection \<open>The HTTP handlers\<close>

text \<open>
  A handler gets the path variable \<open>key\<close> and, where it reads a body, the decoded
  \<^verbatim>\<open>payload.Value\<close> (\<open>None\<close> when the body does not decode); it yields the response and
  the new state.  \<open>now\<close> is the clock read by \<^verbatim>\<open>AddTask\<close>.
\<close>

datatype response =
    NoContent                 \<comment> \<open>204\<close>
  | HttpError string nat      \<comment> \<open>\<^verbatim>\<open>http.Error\<close>: message and status code\<close>
  | StatusBody int string     \<comment> \<open>the JSON body of \<^verbatim>\<open>statusOne\<close>: status and param\<close>

definition StatusConflict :: nat where "StatusConflict = 409"
definition StatusBadRequest :: nat where "StatusBadRequest = 400"
definition StatusInternalServerError :: nat where "StatusInternalServerError = 500"

definition fillReagentOne :: "string \<Rightarrow> int \<Rightarrow> Controller \<Rightarrow> response \<times> Controller" where
  "fillReagentOne key now m =
     (case map_of [(''ca'', 0x27), (''alk'', 0x28), (''mg'', 0x29), (''no3'', 0x2A), (''po4'', 0x2B)] key of
        None \<Rightarrow> (HttpError ''No flush code'' StatusInternalServerError, m)
      | Some code \<Rightarrow>
          (let taskParam = ''flush_'' @ key
           in case AddTask taskParam code now (queue m) of
                (Inl err, q) \<Rightarrow> (HttpError (error_text err) StatusConflict, m\<lparr>queue := q\<rparr>)
              | (Inr u, q) \<Rightarrow>
                  (NoContent,
                   appendLog (''%s: Reagent fill & flush enqueued'', [S (ToUpper key)]) (m\<lparr>queue := q\<rparr>))))"

definition enqueuePumpCalibration :: "int \<Rightarrow> Controller \<Rightarrow> response \<times> Controller" where
  "enqueuePumpCalibration now m =
     (let busy = (current (queue m) \<noteq> None)
      in if busy then
           (HttpError ''Cannot calibrate pump: another task in progress'' StatusConflict, m)
         else
           (let queuedCount = length (tasks (store (queue m)))
            in if 0 < queuedCount then
                 (HttpError ''Cannot calibrate pump: queue not empty'' StatusConflict, m)
               else
                 (case AddTask ''pump'' 0x21 now (queue m) of
                    (Inl err, q) \<Rightarrow> (HttpError (error_text err) StatusConflict, m\<lparr>queue := q\<rparr>)
                  | (Inr u, q) \<Rightarrow>
                      (NoContent,
                       appendLog (''PUMP: Calibration test started. Pumping 50.0 mL. Please wait...'', [])
                         (m\<lparr>queue := q\<rparr>)))))"

definition enqueueParamCalibration ::
    "string \<Rightarrow> float32 option \<Rightarrow> int \<Rightarrow> Controller \<Rightarrow> response \<times> Controller" where
  "enqueueParamCalibration key payload now m =
     (case payload of
        None \<Rightarrow> (HttpError ''Invalid JSON payload'' StatusBadRequest, m)
      | Some val \<Rightarrow>
          (case map_of [(''ca'', 0x22), (''alk'', 0x23), (''mg'', 0x24), (''no3'', 0x25), (''po4'', 0x26)] key of
             None \<Rightarrow> (HttpError ''Unknown parameter'' StatusBadRequest, m)
           | Some code \<Rightarrow>
               (let busy = (current (queue m) \<noteq> None)
                in if busy then
                     (HttpError ''Cannot calibrate: another task in progress'' StatusConflict, m)
                   else
                     (let queued = length (tasks (store (queue m)))
                      in if 0 < queued then
                           (HttpError ''Cannot calibrate: queue not empty'' StatusConflict, m)
                         else
                           (let buf = code # LittleEndian_PutUint32 val
                            in case WriteBytes (getConfigI2C m) buf m of
                                 (Inl err, m1) \<Rightarrow>
                                   (HttpError ''I2C write failed: %v'' StatusInternalServerError, m1)
                               | (Inr u, m1) \<Rightarrow>
                                   (let label = ToUpper key;
                                        m2 = appendLog (''%s: Calibration test started. Known value: %.3f. Please wait...'',
                                                        [S label, F val]) m1;
                                        taskParam = ''cal_'' @ key
                                    in case AddTask taskParam code now (queue m2) of
                                         (Inl err, q) \<Rightarrow>
                                           (HttpError (error_text err) StatusConflict, m2\<lparr>queue := q\<rparr>)
                                       | (Inr u, q) \<Rightarrow> (NoContent, m2\<lparr>queue := q\<rparr>)))))))"

definition runOne :: "string \<Rightarrow> int \<Rightarrow> Controller \<Rightarrow> response \<times> Controller" where
  "runOne key now m =
     (case map_of [(''ca'', 0x11), (''alk'', 0x12), (''mg'', 0x13), (''no3'', 0x14), (''po4'', 0x15)] key of
        None \<Rightarrow> (HttpError ''Unknown parameter'' StatusBadRequest, m)
      | Some code \<Rightarrow>
          (case Get ''default'' m of
             Inl err \<Rightarrow> (HttpError (error_text err) StatusInternalServerError, m)
           | Inr cfg \<Rightarrow>
               (let use = (if key = ''ca'' then ReagentUseCa cfg
                           else if key = ''alk'' then ReagentUseAlk cfg
                           else if key = ''mg'' then ReagentUseMg cfg
                           else if key = ''no3'' then ReagentUseNo3 cfg
                           else if key = ''po4'' then ReagentUsePo4 cfg
                           else 0)
                in case canEnqueueTest key use m of
                     Inl err \<Rightarrow> (HttpError (error_text err) StatusConflict, m)
                   | Inr u \<Rightarrow>
                       (case AddTask key code now (queue m) of
                          (Inl err, q) \<Rightarrow> (HttpError (error_text err) StatusConflict, m\<lparr>queue := q\<rparr>)
                        | (Inr u, q) \<Rightarrow>
                            (NoContent,
                             appendLog (''%s: Manual test enqueued'', [S (ToUpper key)])
                               (m\<lparr>queue := q\<rparr>))))))"

text \<open>\<^verbatim>\<open>statusOne\<close> reads the device's status byte and the controller's \<^verbatim>\<open>currentParam\<close>.\<close>

definition statusOne :: "Controller \<Rightarrow> (response \<times> Controller) option" where
  "statusOne m =
     (if devMode m then Some (StatusBody 0 [], m)
      else
        (let addr = getConfigI2C m
         in case WriteBytes addr [0x31] m of
              (Inl err, m1) \<Rightarrow> Some (HttpError (error_text err) StatusInternalServerError, m1)
            | (Inr u, m1) \<Rightarrow>
                (case ReadBytes addr 1 m1 of
                   None \<Rightarrow> None
                 | Some (Inl err, m2) \<Rightarrow>
                     Some (HttpError (error_text err) StatusInternalServerError, m2)
                 | Some (Inr st, m2) \<Rightarrow>
                     (let running = currentParam m2
                      in Some (StatusBody (uint (st ! 0)) running, m2)))))"

text \<open>
  One round of \<^verbatim>\<open>ProcessTasks\<close> with \<^verbatim>\<open>executeTask\<close> as the worker, as \<^verbatim>\<open>Start\<close> sets it up:
  dequeue, run the task, mark it done.  With an empty bucket the round waits and
  nothing changes.
\<close>

definition worker_round :: "int \<Rightarrow> Controller \<Rightarrow> (task_exit option \<times> Controller) option" where
  "worker_round now m =
     (case dequeue (queue m) of
        (None, q) \<Rightarrow> Some (None, m)
      | (Some task, q) \<Rightarrow>
          (case executeTask task now (m\<lparr>queue := q\<rparr>) of
             None \<Rightarrow> None
           | Some (ex, m1) \<Rightarrow> Some (Some ex, m1\<lparr>queue := mark_done (queue m1)\<rparr>)))"

text \<open>
  \<^verbatim>\<open>putConfig\<close> with the decoded body \<open>newCfg\<close>; the reconciliation of the schedulers
  (\<^verbatim>\<open>applyConfigChanges\<close>) is left out.
\<close>

definition putConfig :: "Config \<Rightarrow> Controller \<Rightarrow> response \<times> Controller" where
  "putConfig body m =
     (let newCfg = body\<lparr>Config_ID := ''default''\<rparr>
      in case Get ''default'' m of
           Inl err \<Rightarrow> (HttpError (error_text err) StatusInternalServerError, m)
         | Inr oldCfg \<Rightarrow>
             (case CreateOrUpdate newCfg m of
                (Inl err, m1) \<Rightarrow> (HttpError (error_text err) StatusInternalServerError, m1)
              | (Inr u, m1) \<Rightarrow> (NoContent, appendLog (''AutoTester configuration saved'', []) m1)))"

subsection \<open>Notions used in the statements\<close>

text \<open>
  The queue invariant: no two persisted tasks have the same \<^verbatim>\<open>param\<close>, and the task in
  progress has the \<^verbatim>\<open>param\<close> of no persisted task.
\<close>

definition queued_params :: "Queue \<Rightarrow> string list" where
  "queued_params q = map (\<lambda>(key, t). Param t) (tasks (store q))"

definition queue_inv :: "Queue \<Rightarrow> bool" where
  "queue_inv q =
     (distinct (queued_params q) \<and>
      (case current q of None \<Rightarrow> True | Some c \<Rightarrow> Param c \<notin> set (queued_params q)))"

text \<open>
  The operations on the queue, as the handlers, the schedulers and the worker issue
  them: \<^verbatim>\<open>AddTask\<close>, \<^verbatim>\<open>RemoveTask\<close>, and the two halves of a round of \<^verbatim>\<open>ProcessTasks\<close>.
\<close>

datatype queue_op = Add string byte int | Cancel string | Dequeue | Done

fun apply_op :: "Queue \<Rightarrow> queue_op \<Rightarrow> Queue" where
  "apply_op q (Add param code now) = snd (AddTask param code now q)"
| "apply_op q (Cancel param) = snd (RemoveTask param q)"
| "apply_op q Dequeue = snd (dequeue q)"
| "apply_op q Done = mark_done q"

definition run_ops :: "queue_op list \<Rightarrow> Queue \<Rightarrow> Queue" where
  "run_ops ops q = foldl apply_op q ops"

definition empty_store :: Store where
  "empty_store = \<lparr>configs = [], readings = [], tasks = [], sequence = 0, put_on_update = True\<rparr>"

definition empty_queue :: Queue where
  "empty_queue = \<lparr>store = empty_store, current = None, signals = 0\<rparr>"

text \<open>
  The controller as \<^verbatim>\<open>New\<close> returns it on an empty store, and the replies the device
  will give.
\<close>

definition new_controller :: Controller where
  "new_controller =
     \<lparr>queue = empty_queue, bus = \<lparr>written = [], write_errors = [], replies = []\<rparr>,
      devMode = False, logs = [], currentParam = []\<rparr>"

definition device_replies :: "byte list option list \<Rightarrow> Controller \<Rightarrow> Controller" where
  "device_replies rs m = m\<lparr>bus := (bus m)\<lparr>replies := rs\<rparr>\<rparr>"

text \<open>The five analytes, and the fields of the configuration that belong to each.\<close>

definition params :: "string list" where
  "params = [''ca'', ''alk'', ''mg'', ''no3'', ''po4'']"

definition use_of :: "string \<Rightarrow> Config \<Rightarrow> float32" where
  "use_of p c =
     (if p = ''ca'' then ReagentUseCa c else if p = ''alk'' then ReagentUseAlk c
      else if p = ''mg'' then ReagentUseMg c else if p = ''no3'' then ReagentUseNo3 c
      else if p = ''po4'' then ReagentUsePo4 c else 0)"

definition start_of :: "string \<Rightarrow> Config \<Rightarrow> float32" where
  "start_of p c =
     (if p = ''ca'' then ReagentStartCa c else if p = ''alk'' then ReagentStartAlk c
      else if p = ''mg'' then ReagentStartMg c else if p = ''no3'' then ReagentStartNo3 c
      else if p = ''po4'' then ReagentStartPo4 c else 0)"

definition remain_of :: "string \<Rightarrow> Config \<Rightarrow> float32" where
  "remain_of p c =
     (if p = ''ca'' then ReagentRemainCa c else if p = ''alk'' then ReagentRemainAlk c
      else if p = ''mg'' then ReagentRemainMg c else if p = ''no3'' then ReagentRemainNo3 c
      else if p = ''po4'' then ReagentRemainPo4 c else 0)"

text \<open>The default record of the configuration bucket, and the persisted readings.\<close>

definition config_of :: "Controller \<Rightarrow> Config option" where
  "config_of m = (case Get ''default'' m of Inl err \<Rightarrow> None | Inr cfg \<Rightarrow> Some cfg)"

definition readings_of :: "Controller \<Rightarrow> Reading list" where
  "readings_of m = map snd (readings (store (queue m)))"

text \<open>Tasks run by the worker one after the other, each with its clock.\<close>

fun run_tasks :: "(Task \<times> int) list \<Rightarrow> Controller \<Rightarrow> (task_exit list \<times> Controller) option" where
  "run_tasks [] m = Some ([], m)"
| "run_tasks ((t, now) # ts) m =
     (case executeTask t now m of
        None \<Rightarrow> None
      | Some (ex, m1) \<Rightarrow>
          (case run_tasks ts m1 of
             None \<Rightarrow> None
           | Some (exs, m2) \<Rightarrow> Some (ex # exs, m2)))"

text \<open>
  The configuration after the accounting of one test of \<open>p\<close> (the remaining reagent of
  \<open>p\<close> less its use, the waste plus it), and after the refill of \<open>p\<close> by a flush.
\<close>

definition set_remain :: "string \<Rightarrow> float32 \<Rightarrow> Config \<Rightarrow> Config" where
  "set_remain p v c =
     (if p = ''ca'' then c\<lparr>ReagentRemainCa := v\<rparr> else if p = ''alk'' then c\<lparr>ReagentRemainAlk := v\<rparr>
      else if p = ''mg'' then c\<lparr>ReagentRemainMg := v\<rparr> else if p = ''no3'' then c\<lparr>ReagentRemainNo3 := v\<rparr>
      else if p = ''po4'' then c\<lparr>ReagentRemainPo4 := v\<rparr> else c)"

definition charged :: "string \<Rightarrow> Config \<Rightarrow> Config" where
  "charged p c =
     (set_remain p (f32_sub (remain_of p c) (use_of p c)) c)
       \<lparr>WasteRemaining := f32_add (WasteRemaining c) (use_of p c)\<rparr>"

definition refilled :: "string \<Rightarrow> Config \<Rightarrow> Config" where
  "refilled p c = set_remain p (start_of p c) c"

text \<open>No reply of the device decodes to a NaN or an infinity.\<close>

definition finite_replies :: "Controller \<Rightarrow> bool" where
  "finite_replies m =
     list_all (\<lambda>r. case r of None \<Rightarrow> True
                   | Some bs \<Rightarrow> f32_finite (LittleEndian_Uint32 (take 4 (bs @ replicate 4 0))))
       (replies (bus m))"

text \<open>
  A controller set up on an empty store (\<^verbatim>\<open>Setup\<close>), with the configuration \<open>cfg\<close> written by
  \<^verbatim>\<open>PUT /config\<close> and a device that will give the replies \<open>rs\<close>.
\<close>

definition controller_with :: "Config \<Rightarrow> byte list option list \<Rightarrow> Controller" where
  "controller_with cfg rs = device_replies rs (snd (putConfig cfg (snd (Setup new_controller))))"

text \<open>
  The configuration of scenario S1 of the spec: \<open>reagent_remain_ca = 2.0\<close>,
  \<open>reagent_use_ca = 2.0\<close>, \<open>waste_remaining = 0\<close>, \<open>waste_threshold = 10\<close>.
\<close>

definition config_S1 :: Config where
  "config_S1 = defaultCfg\<lparr>ReagentRemainCa := 0x40000000, WasteThreshold := 0x41200000\<rparr>"

definition test_ca :: Task where
  "test_ca = \<lparr>ID = ''1'', Param = ''ca'', Code = 0x11, Time = 1000\<rparr>"

text \<open>Rounds of the worker one after the other, each with its clock.\<close>

fun run_rounds :: "int list \<Rightarrow> Controller \<Rightarrow> (task_exit option list \<times> Controller) option" where
  "run_rounds [] m = Some ([], m)"
| "run_rounds (now # ts) m =
     (case worker_round now m of
        None \<Rightarrow> None
      | Some (ex, m1) \<Rightarrow>
          (case run_rounds ts m1 of
             None \<Rightarrow> None
           | Some (exs, m2) \<Rightarrow> Some (ex # exs, m2)))"

text \<open>What a run has left: the exits, the default record, the readings, the log.\<close>

definition exits :: "('a \<times> Controller) option \<Rightarrow> 'a option" where
  "exits r = map_option fst r"

definition left_config :: "('a \<times> Controller) option \<Rightarrow> Config option" where
  "left_config r = (case r of None \<Rightarrow> None | Some (x, m) \<Rightarrow> config_of m)"

definition left_readings :: "('a \<times> Controller) option \<Rightarrow> Reading list" where
  "left_readings r = (case r of None \<Rightarrow> [] | Some (x, m) \<Rightarrow> readings_of m)"

definition left_param :: "('a \<times> Controller) option \<Rightarrow> string option" where
  "left_param r = (case r of None \<Rightarrow> None | Some (x, m) \<Rightarrow> Some (currentParam m))"

definition left_logs :: "('a \<times> Controller) option \<Rightarrow> log_line list" where
  "left_logs r = (case r of None \<Rightarrow> [] | Some (x, m) \<Rightarrow> logs m)"

text \<open>
  A configuration with \<open>waste_threshold = 3.0\<close> (use \<open>2.0\<close> and waste \<open>0.0\<close> as in the
  defaults), one with \<open>reagent_use_ca\<close> the \<^verbatim>\<open>float32\<close> nearest to \<open>0.1\<close>, and one with
  \<open>reagent_remain_ca = 498.0\<close> below \<open>reagent_start_ca = 500.0\<close>.
\<close>

definition config_threshold3 :: Config where
  "config_threshold3 = defaultCfg\<lparr>WasteThreshold := 0x40400000\<rparr>"

definition config_tenth :: Config where
  "config_tenth = defaultCfg\<lparr>ReagentUseCa := 0x3DCCCCCD\<rparr>"

definition config_used :: Config where
  "config_used = defaultCfg\<lparr>ReagentRemainCa := 0x43F90000\<rparr>"

definition flush_ca :: Task where
  "flush_ca = \<lparr>ID = ''1'', Param = ''flush_ca'', Code = 0x27, Time = 1000\<rparr>"

definition pump_start :: Task where
  "pump_start = \<lparr>ID = ''1'', Param = ''pump'', Code = 0x21, Time = 1000\<rparr>"

definition state_after :: "('a \<times> Controller) option \<Rightarrow> Controller" where
  "state_after r = (case r of None \<Rightarrow> new_controller | Some (x, m) \<Rightarrow> m)"


text \<open>
  The controller after \<^verbatim>\<open>POST /run/ca\<close> on the default configuration (one test queued,
  no task in progress), and the same once the worker has dequeued the test (the test
  in progress, nothing queued).
\<close>

definition one_test_queued :: Controller where
  "one_test_queued = snd (runOne ''ca'' 1000 (controller_with defaultCfg []))"

definition one_test_running :: Controller where
  "one_test_running = one_test_queued\<lparr>queue := snd (dequeue (queue one_test_queued))\<rparr>"

text \<open>
  The controller after \<^verbatim>\<open>POST /run/ca\<close> and \<^verbatim>\<open>POST /run/alk\<close> on the configuration with
  \<open>waste_threshold = 3.0\<close>, with a device that will answer two tests.
\<close>

definition two_tests_queued :: Controller where
  "two_tests_queued =
     snd (runOne ''alk'' 1001 (snd (runOne ''ca'' 1000
       (controller_with config_threshold3
          [Some [0], Some [0x00, 0x40, 0xCD, 0x43], Some [0], Some [0x00, 0x40, 0xCD, 0x43]]))))"

text \<open>
  A queue with a tie: \<open>ca\<close> and \<open>mg\<close> enqueued in the same second, \<open>alk\<close> in between in the
  bucket but later.  And a queue of thirteen tasks as a store that lists its keys in byte
  order (as bolt does) holds them after thirteen calls of \<^verbatim>\<open>AddTask\<close>, the first nine in
  one second and the last four in the next: the keys run \<open>1, 10, 11, 12, 13, 2, \<dots>, 9\<close>.
\<close>

definition queue_with_tie :: Queue where
  "queue_with_tie =
     \<lparr>store = empty_store\<lparr>tasks :=
        [(''1'', \<lparr>ID = ''1'', Param = ''ca'', Code = 0x11, Time = 10\<rparr>),
         (''2'', \<lparr>ID = ''2'', Param = ''alk'', Code = 0x12, Time = 20\<rparr>),
         (''3'', \<lparr>ID = ''3'', Param = ''mg'', Code = 0x13, Time = 10\<rparr>)],
        sequence := 3\<rparr>,
      current = None, signals = 3\<rparr>"

definition task_at :: "string \<Rightarrow> string \<Rightarrow> int \<Rightarrow> string \<times> Task" where
  "task_at key param ts = (key, \<lparr>ID = key, Param = param, Code = 0x11, Time = ts\<rparr>)"

definition thirteen_tasks :: Queue where
  "thirteen_tasks =
     \<lparr>store = empty_store\<lparr>tasks :=
        [task_at ''1'' ''p1'' 100, task_at ''10'' ''p10'' 101, task_at ''11'' ''p11'' 101,
         task_at ''12'' ''p12'' 101, task_at ''13'' ''p13'' 101, task_at ''2'' ''p2'' 100,
         task_at ''3'' ''p3'' 100, task_at ''4'' ''p4'' 100, task_at ''5'' ''p5'' 100,
         task_at ''6'' ''p6'' 100, task_at ''7'' ''p7'' 100, task_at ''8'' ''p8'' 100,
         task_at ''9'' ''p9'' 100],
        sequence := 13\<rparr>,
      current = None, signals = 13\<rparr>"
section \<open>Evaluation of float32 arithmetic\<close>

lemmas f32_eval =
  f32_add_def f32_sub_def f32_lt_def f32_gt_def f32_finite_def f32_add_bits_def
  f32_neg_bits_def f32_lt_bits_def f32_key_def f32_nan_def f32_inf_def f32_exponent_def
  f32_fraction_def f32_units_def f32_magnitude_def f32_negative_def f32_round_def
  f32_pack_def f32_quiet_nan_def Let_def bit_length.simps

section \<open>The queue\<close>

subsection \<open>The invariant of the queue\<close>

lemma scan_cases: "scan acc kv = Some kv \<or> scan acc kv = acc"
  by (cases acc) (auto simp: scan_def split: prod.splits)

lemma scan_foldl_mem: "foldl scan acc kvs = Some r \<Longrightarrow> acc = Some r \<or> r \<in> set kvs"
proof (induction kvs arbitrary: acc)
  case Nil
  then show ?case by simp
next
  case (Cons kv kvs)
  from Cons.prems have "foldl scan (scan acc kv) kvs = Some r" by simp
  from Cons.IH [OF this] have "scan acc kv = Some r \<or> r \<in> set kvs" .
  with scan_cases [of acc kv] show ?case by auto
qed

lemma next_task_mem: "next_task kvs = Some r \<Longrightarrow> r \<in> set kvs"
  unfolding next_task_def by (drule scan_foldl_mem) simp

lemma scan_foldl_Some: "foldl scan (Some r) kvs \<noteq> None"
proof (induction kvs arbitrary: r)
  case Nil
  then show ?case by simp
next
  case (Cons kv kvs)
  have "\<exists>r'. scan (Some r) kv = Some r'"
    by (cases r) (simp add: scan_def)
  then show ?case using Cons.IH by auto
qed

lemma next_task_None: "next_task kvs = None \<longleftrightarrow> kvs = []"
proof (cases kvs)
  case Nil
  then show ?thesis by (simp add: next_task_def)
next
  case (Cons kv kvs')
  show ?thesis using scan_foldl_Some [of kv kvs']
    by (simp add: next_task_def Cons scan_def)
qed

lemma find_param_None:
  "find (\<lambda>(key, t). Param t = p) kvs = None \<longleftrightarrow> p \<notin> set (map (\<lambda>(key, t). Param t) kvs)"
  by (induction kvs) auto

lemma distinct_params_removed:
  assumes "distinct (map (\<lambda>(key, t). Param t) kvs)" and "(k, n) \<in> set kvs"
  shows "Param n \<notin> set (map (\<lambda>(key, t). Param t) (filter (\<lambda>(key, t). key \<noteq> k) kvs))"
proof
  assume "Param n \<in> set (map (\<lambda>(key, t). Param t) (filter (\<lambda>(key, t). key \<noteq> k) kvs))"
  then obtain k' t' where m: "(k', t') \<in> set kvs" and ne: "k' \<noteq> k" and eq: "Param t' = Param n"
    by auto
  from assms(1) have inj: "inj_on (\<lambda>(key, t). Param t) (set kvs)"
    by (simp add: distinct_map)
  have "(\<lambda>(key, t). Param t) (k', t') = (\<lambda>(key, t). Param t) (k, n)"
    using eq by simp
  from inj_onD [OF inj this m assms(2)] ne show False by simp
qed

lemma mark_done_inv: "queue_inv q \<Longrightarrow> queue_inv (mark_done q)"
  by (simp add: mark_done_def queue_inv_def queued_params_def)

lemma AddTask_inv: "queue_inv q \<Longrightarrow> queue_inv (snd (AddTask p c now q))"
  by (auto simp: AddTask_def queue_inv_def queued_params_def Create_task_def is_current_def
        find_param_None Let_def split: option.splits)

lemma RemoveTask_inv: "queue_inv q \<Longrightarrow> queue_inv (snd (RemoveTask p q))"
proof -
  assume inv: "queue_inv q"
  have sub: "\<And>P. set (map (\<lambda>(key, t). Param t) (filter P (tasks (store q))))
               \<subseteq> set (map (\<lambda>(key, t). Param t) (tasks (store q)))"
    by auto
  have "queue_inv (q\<lparr>store := (store q)\<lparr>tasks := filter P (tasks (store q))\<rparr>\<rparr>)" for P
    using inv sub [of P]
    by (auto simp: queue_inv_def queued_params_def distinct_map_filter split: option.splits)
  then show ?thesis using inv
    by (simp add: RemoveTask_def Delete_task_def Let_def split: option.splits prod.splits)
qed

lemma dequeue_inv: "queue_inv q \<Longrightarrow> queue_inv (snd (dequeue q))"
proof (cases "next_task (tasks (store q))")
  case None
  assume "queue_inv q"
  with None show ?thesis by (simp add: dequeue_def)
next
  case (Some r)
  assume inv: "queue_inv q"
  obtain k n where r: "r = (k, n)" by (cases r)
  from Some r have mem: "(k, n) \<in> set (tasks (store q))"
    by (auto dest: next_task_mem)
  from inv have d: "distinct (map (\<lambda>(key, t). Param t) (tasks (store q)))"
    by (simp add: queue_inv_def queued_params_def)
  from distinct_params_removed [OF d mem] d show ?thesis
    by (simp add: dequeue_def Some r Delete_task_def queue_inv_def queued_params_def
          distinct_map_filter)
qed

lemma apply_op_inv: "queue_inv q \<Longrightarrow> queue_inv (apply_op q op)"
  by (cases op) (simp_all add: AddTask_inv RemoveTask_inv dequeue_inv mark_done_inv)

lemma run_ops_inv: "queue_inv q \<Longrightarrow> queue_inv (run_ops ops q)"
  unfolding run_ops_def by (induction ops arbitrary: q) (simp_all add: apply_op_inv)

lemma AddTask_in_progress:
  "is_current q p \<Longrightarrow> AddTask p c now q = (Inl (InProgress p), q)"
  by (simp add: AddTask_def)

lemma AddTask_queued:
  "\<not> is_current q p \<Longrightarrow> p \<in> set (queued_params q) \<Longrightarrow>
   AddTask p c now q = (Inl (AlreadyQueued p), q)"
  by (simp add: AddTask_def find_param_None queued_params_def)

lemma AddTask_fresh:
  "\<not> is_current q p \<Longrightarrow> p \<notin> set (queued_params q) \<Longrightarrow>
   AddTask p c now q =
     (Inr (), q\<lparr>store := (store q)\<lparr>sequence := Suc (sequence (store q)),
                   tasks := tasks (store q) @
                     [(next_key (store q),
                       \<lparr>ID = next_key (store q), Param = p, Code = c, Time = now\<rparr>)]\<rparr>,
                 signals := Suc (signals q)\<rparr>)"
  using find_param_None [of p "tasks (store q)"]
  by (simp add: AddTask_def queued_params_def Create_task_def Let_def)

lemma empty_queue_inv: "queue_inv empty_queue"
  by (simp add: queue_inv_def queued_params_def empty_queue_def empty_store_def)


lemmas queue_eval =
  run_ops_def AddTask_def RemoveTask_def dequeue_def mark_done_def next_task_def scan_def
  Create_task_def Delete_task_def next_key_def digits.simps is_current_def queued_params_def
  empty_queue_def empty_store_def Let_def char_of_def bit_iff_odd_drop_bit drop_bit_eq_div

text \<open>
  C5.  From a queue that satisfies the invariant, after any sequence of \<^verbatim>\<open>AddTask\<close>,
  \<^verbatim>\<open>RemoveTask\<close> and rounds of \<^verbatim>\<open>ProcessTasks\<close>: no two persisted tasks have the same
  param and the task in progress has the param of none of them; \<^verbatim>\<open>AddTask\<close> fails with
  "already in progress" when the task in progress has the requested param, with
  "already queued" when a persisted task has it, and otherwise persists
  \<open>Task{param, code, ts = now}\<close> under the key the store hands out and signals the worker.
\<close>

theorem C5_one_task_per_param:
  assumes "queue_inv q0"
  shows "let q = run_ops ops q0 in
           distinct (queued_params q) \<and>
           (\<forall>t. current q = Some t \<longrightarrow> Param t \<notin> set (queued_params q)) \<and>
           (is_current q p \<longrightarrow> AddTask p c now q = (Inl (InProgress p), q)) \<and>
           (\<not> is_current q p \<and> p \<in> set (queued_params q) \<longrightarrow>
              AddTask p c now q = (Inl (AlreadyQueued p), q)) \<and>
           (\<not> is_current q p \<and> p \<notin> set (queued_params q) \<longrightarrow>
              AddTask p c now q =
                (Inr (), q\<lparr>store := (store q)\<lparr>sequence := Suc (sequence (store q)),
                              tasks := tasks (store q) @
                                [(next_key (store q),
                                  \<lparr>ID = next_key (store q), Param = p, Code = c, Time = now\<rparr>)]\<rparr>,
                            signals := Suc (signals q)\<rparr>))"
proof -
  have "queue_inv (run_ops ops q0)"
    using assms by (rule run_ops_inv)
  then show ?thesis
    by (auto simp: Let_def queue_inv_def AddTask_in_progress AddTask_queued AddTask_fresh)
qed

theorem C5_one_task_per_param_witness:
  "queue_inv empty_queue \<and>
   (let q = run_ops [Add ''ca'' 0x11 10, Add ''alk'' 0x12 20, Add ''ca'' 0x11 30, Dequeue] empty_queue
    in queued_params q = [''alk''] \<and> is_current q ''ca'' \<and>
       AddTask ''ca'' 0x11 40 q = (Inl (InProgress ''ca''), q) \<and>
       AddTask ''alk'' 0x12 40 q = (Inl (AlreadyQueued ''alk''), q) \<and>
       tasks (store (snd (AddTask ''mg'' 0x13 40 q))) =
         [(''2'', \<lparr>ID = ''2'', Param = ''alk'', Code = 0x12, Time = 20\<rparr>),
          (''3'', \<lparr>ID = ''3'', Param = ''mg'', Code = 0x13, Time = 40\<rparr>)])"
proof -
  have inv: "queue_inv empty_queue"
    by (rule empty_queue_inv)
  have q: "run_ops [Add ''ca'' 0x11 10, Add ''alk'' 0x12 20, Add ''ca'' 0x11 30, Dequeue] empty_queue =
           \<lparr>store = \<lparr>configs = [], readings = [],
                     tasks = [(''2'', \<lparr>ID = ''2'', Param = ''alk'', Code = 0x12, Time = 20\<rparr>)],
                     sequence = 2, put_on_update = True\<rparr>,
            current = Some \<lparr>ID = ''1'', Param = ''ca'', Code = 0x11, Time = 10\<rparr>, signals = 2\<rparr>"
    by (simp add: queue_eval)
  show ?thesis
    using inv
      C5_one_task_per_param [OF inv, of "[Add ''ca'' 0x11 10, Add ''alk'' 0x12 20, Add ''ca'' 0x11 30, Dequeue]" "''ca''" "0x11" 40]
      C5_one_task_per_param [OF inv, of "[Add ''ca'' 0x11 10, Add ''alk'' 0x12 20, Add ''ca'' 0x11 30, Dequeue]" "''alk''" "0x12" 40]
      C5_one_task_per_param [OF inv, of "[Add ''ca'' 0x11 10, Add ''alk'' 0x12 20, Add ''ca'' 0x11 30, Dequeue]" "''mg''" "0x13" 40]
    unfolding q
    by (simp add: queue_eval)
qed

lemma RemoveTask_of_current:
  "queue_inv q \<Longrightarrow> is_current q p \<Longrightarrow> RemoveTask p q = (Inl (NoQueuedTask p), q)"
  using find_param_None [of p "tasks (store q)"]
  by (auto simp: RemoveTask_def queue_inv_def queued_params_def is_current_def Let_def
        split: option.splits)

text \<open>
  C2.  The task for \<open>ca\<close> is enqueued and dequeued, so that it is the task in progress;
  \<^verbatim>\<open>RemoveTask\<close> for \<open>ca\<close> then reports that no task is queued, not that the task is
  running.
\<close>

theorem C2_cancel_of_running_task:
  "is_current (run_ops [Add ''ca'' 0x11 100, Dequeue] empty_queue) ''ca'' \<and>
   RemoveTask ''ca'' (run_ops [Add ''ca'' 0x11 100, Dequeue] empty_queue) =
     (Inl (NoQueuedTask ''ca''), run_ops [Add ''ca'' 0x11 100, Dequeue] empty_queue)"
  by (simp add: queue_eval)


subsection \<open>The insertion sort\<close>

lemma move_left_snoc:
  "move_left x (ys @ [y]) = (if Time x < Time y then move_left x ys @ [y] else ys @ [y, x])"
  by (subst move_left.simps) simp

lemma move_left_Nil: "move_left x [] = [x]"
  by (subst move_left.simps) simp

lemma move_left_sorted_eq:
  "sorted (map Time xs) \<Longrightarrow>
   move_left x xs = filter (\<lambda>y. Time y \<le> Time x) xs @ x # filter (\<lambda>y. Time x < Time y) xs"
proof (induction xs rule: rev_induct)
  case Nil
  show ?case by (simp add: move_left_Nil)
next
  case (snoc y ys)
  from snoc.prems have s: "sorted (map Time ys)" and le: "\<forall>z \<in> set ys. Time z \<le> Time y"
    by (auto simp: sorted_append)
  show ?case
  proof (cases "Time x < Time y")
    case True
    with snoc.IH [OF s] show ?thesis by (simp add: move_left_snoc)
  next
    case False
    with le have "\<forall>z \<in> set ys. Time z \<le> Time x" by auto
    then have "filter (\<lambda>y. Time y \<le> Time x) ys = ys" "filter (\<lambda>y. Time x < Time y) ys = []"
      by (auto simp: filter_empty_conv)
    with False show ?thesis by (simp add: move_left_snoc)
  qed
qed

lemma mset_move_left: "mset (move_left x xs) = add_mset x (mset xs)"
proof (induction xs rule: rev_induct)
  case Nil
  show ?case by (simp add: move_left_Nil)
next
  case (snoc y ys)
  then show ?case by (simp add: move_left_snoc)
qed

lemma sorted_move_left:
  assumes "sorted (map Time xs)"
  shows "sorted (map Time (move_left x xs))"
proof -
  have "sorted (map Time (filter (\<lambda>y. Time y \<le> Time x) xs))"
       "sorted (map Time (filter (\<lambda>y. Time x < Time y) xs))"
    using assms by (simp_all add: sorted_filter)
  then show ?thesis
    unfolding move_left_sorted_eq [OF assms]
    by (auto simp: sorted_append)
qed

lemma sorted_split_at:
  "sorted (map Time xs) \<Longrightarrow>
   filter (\<lambda>y. Time y \<le> Time x) xs @ filter (\<lambda>y. Time x < Time y) xs = xs"
proof (induction xs)
  case Nil
  show ?case by simp
next
  case (Cons z zs)
  then have s: "sorted (map Time zs)" and le: "\<forall>w \<in> set zs. Time z \<le> Time w"
    by auto
  show ?case
  proof (cases "Time z \<le> Time x")
    case True
    with Cons.IH [OF s] show ?thesis by simp
  next
    case False
    with le have "filter (\<lambda>y. Time y \<le> Time x) zs = []"
      by (auto simp: filter_empty_conv)
    moreover from False le have "filter (\<lambda>y. Time x < Time y) zs = zs"
      by (auto simp: filter_id_conv)
    ultimately show ?thesis using False by simp
  qed
qed

lemma filter_move_left:
  assumes "sorted (map Time xs)"
  shows "filter (\<lambda>t. Time t = k) (move_left x xs) =
         filter (\<lambda>t. Time t = k) xs @ (if Time x = k then [x] else [])"
proof -
  let ?lo = "filter (\<lambda>y. Time y \<le> Time x) xs" and ?hi = "filter (\<lambda>y. Time x < Time y) xs"
  have split: "filter (\<lambda>t. Time t = k) xs =
               filter (\<lambda>t. Time t = k) ?lo @ filter (\<lambda>t. Time t = k) ?hi"
    using arg_cong [OF sorted_split_at [OF assms, of x], of "filter (\<lambda>t. Time t = k)"]
    by simp
  have hi: "filter (\<lambda>t. Time t = k) ?hi = []" if "Time x = k"
    using that by (auto simp: filter_empty_conv)
  have "filter (\<lambda>t. Time t = k) (move_left x xs) =
        filter (\<lambda>t. Time t = k) ?lo @ (if Time x = k then [x] else []) @ filter (\<lambda>t. Time t = k) ?hi"
    unfolding move_left_sorted_eq [OF assms] by simp
  also have "\<dots> = filter (\<lambda>t. Time t = k) xs @ (if Time x = k then [x] else [])"
    using hi by (cases "Time x = k") (simp_all only: split append_Nil2 append_Nil if_True if_False append_assoc)
  finally show ?thesis .
qed

lemma insertionSort_func_snoc:
  "insertionSort_func (ts @ [x]) = move_left x (insertionSort_func ts)"
  by (simp add: insertionSort_func_def)

lemma mset_insertionSort_func: "mset (insertionSort_func ts) = mset ts"
  by (induction ts rule: rev_induct)
     (simp_all add: insertionSort_func_snoc mset_move_left, simp add: insertionSort_func_def)

lemma sorted_insertionSort_func: "sorted (map Time (insertionSort_func ts))"
  by (induction ts rule: rev_induct)
     (simp_all add: insertionSort_func_snoc sorted_move_left, simp add: insertionSort_func_def)

lemma stable_insertionSort_func:
  "filter (\<lambda>t. Time t = k) (insertionSort_func ts) = filter (\<lambda>t. Time t = k) ts"
proof (induction ts rule: rev_induct)
  case Nil
  show ?case by (simp add: insertionSort_func_def)
next
  case (snoc x xs)
  then show ?case
    by (simp add: insertionSort_func_snoc filter_move_left [OF sorted_insertionSort_func])
qed
section \<open>The executor\<close>

subsection \<open>What the bus and the log leave alone\<close>

lemma WriteBytes_frame [simp]:
  "queue (snd (WriteBytes a bs m)) = queue m"
  "logs (snd (WriteBytes a bs m)) = logs m"
  "currentParam (snd (WriteBytes a bs m)) = currentParam m"
  "devMode (snd (WriteBytes a bs m)) = devMode m"
  "replies (bus (snd (WriteBytes a bs m))) = replies (bus m)"
  by (simp_all add: WriteBytes_def split: list.splits)

lemma ReadBytes_frame:
  assumes "ReadBytes a n m = Some (r, m')"
  shows "queue m' = queue m" "logs m' = logs m" "currentParam m' = currentParam m"
    "devMode m' = devMode m" "replies (bus m') = tl (replies (bus m))"
    "written (bus m') = written (bus m)" "write_errors (bus m') = write_errors (bus m)"
  using assms by (auto simp: ReadBytes_def split: list.splits)

lemma ReadBytes_value:
  assumes "ReadBytes a n m = Some (Inr data, m')"
  shows "\<exists>bs. Some bs \<in> set (replies (bus m)) \<and> data = take n (bs @ replicate n 0)"
  using assms by (auto simp: ReadBytes_def split: list.splits option.splits)

lemma appendLog_frame [simp]:
  "queue (appendLog e m) = queue m"
  "bus (appendLog e m) = bus m"
  "currentParam (appendLog e m) = currentParam m"
  "devMode (appendLog e m) = devMode m"
  by (simp_all add: appendLog_def Let_def)

lemma Get_cong: "queue m = queue m' \<Longrightarrow> Get k m = Get k m'"
  by (simp add: Get_def)

lemma getConfigI2C_cong: "queue m = queue m' \<Longrightarrow> getConfigI2C m = getConfigI2C m'"
  by (simp add: getConfigI2C_def Get_def)

lemma poll_frame:
  "poll c m = Some (e, m') \<Longrightarrow>
     queue m' = queue m \<and> logs m' = logs m \<and> currentParam m' = currentParam m \<and>
     devMode m' = devMode m \<and> set (replies (bus m')) \<subseteq> set (replies (bus m))"
proof (induction c m rule: poll.induct)
  case (1 c m)
  let ?m1 = "snd (WriteBytes (getConfigI2C m) [0x31] m)"
  from "1.prems" obtain r m2 where rd: "ReadBytes (getConfigI2C ?m1) 1 ?m1 = Some (r, m2)"
    by (subst (asm) poll.simps) (auto simp: Let_def split: option.splits)
  note fr = ReadBytes_frame [OF rd]
  have sub: "set (replies (bus m2)) \<subseteq> set (replies (bus m))"
    using fr(5) by (simp add: subset_iff) (metis list.set_sel(2) tl_Nil)
  show ?case
  proof (cases r)
    case (Inl err)
    with "1.prems" rd fr sub show ?thesis
      by (subst (asm) poll.simps) (auto simp: Let_def)
  next
    case (Inr st)
    show ?thesis
    proof (cases "(c \<and> st ! 0 = 2) \<or> st ! 0 = 0")
      case True
      with "1.prems" rd Inr fr sub show ?thesis
        by (subst (asm) poll.simps) (auto simp: Let_def split: if_splits)
    next
      case False
      with "1.prems" rd Inr have "poll c m2 = Some (e, m')"
        by (subst (asm) poll.simps) (auto simp: Let_def split: if_splits)
      moreover from False have "\<not> (c \<and> st ! 0 = 2)" and "st ! 0 \<noteq> 0"
        by auto
      ultimately
      have "queue m' = queue m2 \<and> logs m' = logs m2 \<and> currentParam m' = currentParam m2 \<and>
            devMode m' = devMode m2 \<and> set (replies (bus m')) \<subseteq> set (replies (bus m2))"
        using "1.IH" [OF refl rd refl Inr] by blast
      with fr sub show ?thesis by auto
    qed
  qed
qed

lemma poll_no_check: "poll False m \<noteq> Some (PollDeviceError, m')"
proof (induction "False" m rule: poll.induct)
  case (1 m)
  show ?case
  proof
    assume a: "poll False m = Some (PollDeviceError, m')"
    let ?m1 = "snd (WriteBytes (getConfigI2C m) [0x31] m)"
    from a obtain r m2 where rd: "ReadBytes (getConfigI2C ?m1) 1 ?m1 = Some (r, m2)"
      by (subst (asm) poll.simps) (auto simp: Let_def split: option.splits)
    from a rd obtain st where r: "r = Inr st" and nz: "st ! 0 \<noteq> 0"
      and rec: "poll False m2 = Some (PollDeviceError, m')"
      by (subst (asm) poll.simps) (auto simp: Let_def split: sum.splits if_splits)
    have "\<not> (False \<and> st ! 0 = 2)"
      by simp
    from "1.hyps" [OF refl rd refl r this nz] rec show False
      by simp
  qed
qed


subsection \<open>The test sequence\<close>

lemma set_store_frame [simp]:
  "queue (set_store st m) = (queue m)\<lparr>store := st\<rparr>"
  "bus (set_store st m) = bus m"
  "logs (set_store st m) = logs m"
  "currentParam (set_store st m) = currentParam m"
  "devMode (set_store st m) = devMode m"
  by (simp_all add: set_store_def)

lemma storeResult_frame [simp]:
  "bus (snd (storeResult p v now m)) = bus m"
  "logs (snd (storeResult p v now m)) = logs m"
  "currentParam (snd (storeResult p v now m)) = currentParam m"
  "devMode (snd (storeResult p v now m)) = devMode m"
  by (simp_all add: storeResult_def Let_def split: prod.splits)

lemma storeResult_queue_cong:
  "queue m = queue m2 \<Longrightarrow>
   queue (snd (storeResult p v now m)) = queue (snd (storeResult p v now m2))"
  by (simp add: storeResult_def Let_def split: prod.splits)

lemma CreateOrUpdate_frame [simp]:
  "bus (snd (CreateOrUpdate cfg m)) = bus m"
  "logs (snd (CreateOrUpdate cfg m)) = logs m"
  "currentParam (snd (CreateOrUpdate cfg m)) = currentParam m"
  "devMode (snd (CreateOrUpdate cfg m)) = devMode m"
  by (simp_all add: CreateOrUpdate_def split: prod.splits sum.splits)

lemma CreateOrUpdate_queue_cong:
  "queue m = queue m2 \<Longrightarrow>
   queue (snd (CreateOrUpdate cfg m)) = queue (snd (CreateOrUpdate cfg m2))"
  by (simp add: CreateOrUpdate_def split: prod.splits sum.splits)

lemma account_test_frame [simp]:
  "bus (account_test p l m) = bus m"
  "currentParam (account_test p l m) = currentParam m"
  "devMode (account_test p l m) = devMode m"
  by (simp_all add: account_test_def Let_def split: sum.splits prod.splits)

lemma account_test_queue_cong:
  assumes "queue m = queue m2"
  shows "queue (account_test p l m) = queue (account_test p l m2)"
proof -
  have g: "Get ''default'' m = Get ''default'' m2"
    using assms by (rule Get_cong)
  show ?thesis
    using CreateOrUpdate_queue_cong [OF assms] assms
    by (simp add: account_test_def g Let_def split: sum.splits prod.splits)
qed


lemma test_task_completed:
  assumes "test_task p l c now m = Some (Completed, m')"
  shows "\<exists>v. (\<exists>bs. Some bs \<in> set (replies (bus m)) \<and> v = LittleEndian_Uint32 (take 4 (bs @ replicate 4 0))) \<and>
             queue m' = queue (account_test p l (snd (storeResult p v now m))) \<and>
             currentParam m' = currentParam m \<and> devMode m' = devMode m \<and>
             set (replies (bus m')) \<subseteq> set (replies (bus m))"
proof -
  obtain m1 where w: "WriteBytes (getConfigI2C m) [c] m = (Inr (), m1)"
    using assms by (auto simp: test_task_def split: prod.splits sum.splits)
  then have m1: "m1 = snd (WriteBytes (getConfigI2C m) [c] m)" by simp
  obtain m2 where p2: "poll True m1 = Some (PollIdle, m2)"
    using assms w by (auto simp: test_task_def split: option.splits poll_exit.splits)
  note f2 = poll_frame [OF p2]
  let ?m4 = "appendLog (''%s: Sent READ_RESULT command (0x32)'', [S l])
               (snd (WriteBytes (getConfigI2C m2) [0x32] m2))"
  note a = assms [unfolded test_task_def w prod.case sum.case p2 option.case poll_exit.case]
  note b = a [unfolded Let_def]
  obtain data m5 where r: "ReadBytes (getConfigI2C ?m4) 4 ?m4 = Some (Inr data, m5)"
    using b by (auto split: option.splits sum.splits)
  note f5 = ReadBytes_frame [OF r]
  from ReadBytes_value [OF r] obtain bs where
    bs: "Some bs \<in> set (replies (bus ?m4))" "data = take 4 (bs @ replicate 4 0)"
    by blast
  let ?v = "LittleEndian_Uint32 data"
  have q5: "queue m5 = queue m"
    using f5 f2 m1 by simp
  note c = b [unfolded r option.case prod.case sum.case]
  have eq: "m' = account_test p l
              (appendLog (''%s: Test completed (%.2f)'', [S l, F ?v])
                (snd (storeResult p ?v now
                   (appendLog (''%s: Converted to float32: %f'', [S l, F ?v])
                     (appendLog (''%s: Raw bits: 0x%08x'', [S l, W ?v])
                       (appendLog (''%s: Read raw bytes: [%x %x %x %x]'',
                          [S l, X (data ! 0), X (data ! 1), X (data ! 2), X (data ! 3)]) m5))))))"
    using c by simp
  have "queue m' = queue (account_test p l (snd (storeResult p ?v now m)))"
    unfolding eq
    by (rule account_test_queue_cong) (simp, rule storeResult_queue_cong, simp add: q5)
  moreover have "currentParam m' = currentParam m" "devMode m' = devMode m"
    unfolding eq using f5 f2 m1 by simp_all
  moreover have "set (replies (bus m')) \<subseteq> set (replies (bus m))"
  proof -
    have "replies (bus m') = tl (replies (bus m2))"
      unfolding eq using f5 by simp
    then have "set (replies (bus m')) \<subseteq> set (replies (bus m2))"
      by (simp add: subset_iff) (metis list.set_sel(2) tl_Nil)
    with f2 m1 show ?thesis by auto
  qed
  moreover have "Some bs \<in> set (replies (bus m))"
    using bs(1) f2 m1 by auto
  ultimately show ?thesis using bs(2) by blast
qed


subsection \<open>The accounting of a test\<close>

lemma map_of_put: "map_of (put k v kvs) k' = (if k' = k then Some v else map_of kvs k')"
  by (induction kvs) auto

lemma params_cases:
  "p \<in> set params \<longleftrightarrow> p = ''ca'' \<or> p = ''alk'' \<or> p = ''mg'' \<or> p = ''no3'' \<or> p = ''po4''"
  by (auto simp: params_def)

lemma params_not_special:
  assumes "p \<in> set params"
  shows "\<not> HasPrefix p ''flush_''" "p \<noteq> ''pump''" "\<not> HasPrefix p ''cal_''"
    "TrimPrefix p ''flush_'' = p"
  using assms by (auto simp: params_cases HasPrefix_def TrimPrefix_def)

lemma account_test_charged:
  assumes "p \<in> set params" and "Get ''default'' m = Inr cfg"
  shows "account_test p l m =
         appendLog (''%s: Reagent remaining: %.1f mL; Waste: %.1f mL'',
                    [S l, F (remain_of p (charged p cfg)), F (WasteRemaining (charged p cfg))])
           (snd (CreateOrUpdate (charged p cfg) m))"
  using assms
  by (auto simp: params_cases account_test_def charged_def set_remain_def remain_of_def use_of_def Let_def)

lemma CreateOrUpdate_default:
  assumes "Get ''default'' m = Inr cfg" and "Config_ID c = ''default''"
  shows "store (queue (snd (CreateOrUpdate c m))) =
         (if json_Config c
          then (store (queue m))\<lparr>configs := put ''default'' c (configs (store (queue m)))\<rparr>
          else store (queue m))"
proof -
  from assms(1) have "has_key ''default'' (configs (store (queue m)))"
    by (auto simp: Get_def Get_config_def has_key_def split: option.splits dest!: map_of_SomeD)
       (metis fst_conv image_eqI)
  moreover have "json_Config (c\<lparr>Config_ID := k\<rparr>) = json_Config c" for k
    by (simp add: json_Config_def)
  ultimately show ?thesis
    using assms(2)
    by (simp add: CreateOrUpdate_def Update_config_def Create_config_def Let_def)
qed

lemma config_of_Get: "config_of m = Some cfg \<longleftrightarrow> Get ''default'' m = Inr cfg"
  by (simp add: config_of_def split: sum.splits)

lemma config_of_cong: "queue m = queue m' \<Longrightarrow> config_of m = config_of m'"
  by (simp add: config_of_def Get_def)

lemma readings_of_cong: "queue m = queue m' \<Longrightarrow> readings_of m = readings_of m'"
  by (simp add: readings_of_def)

lemma account_test_config:
  assumes "p \<in> set params" and "config_of m = Some cfg" and "Config_ID cfg = ''default''"
    and "json_Config (charged p cfg)"
  shows "config_of (account_test p l m) = Some (charged p cfg)"
    and "readings_of (account_test p l m) = readings_of m"
    and "tasks (store (queue (account_test p l m))) = tasks (store (queue m))"
    and "current (queue (account_test p l m)) = current (queue m)"
proof -
  from assms(2) have g: "Get ''default'' m = Inr cfg"
    by (simp add: config_of_Get)
  have id: "Config_ID (charged p cfg) = ''default''"
    using assms(3) by (simp add: charged_def set_remain_def)
  note st = CreateOrUpdate_default [OF g id]
  have q: "queue (account_test p l m) = queue (snd (CreateOrUpdate (charged p cfg) m))"
    by (simp add: account_test_charged [OF assms(1) g])
  show "config_of (account_test p l m) = Some (charged p cfg)"
    using assms(4) by (simp add: config_of_def Get_def Get_config_def q st map_of_put)
  show "readings_of (account_test p l m) = readings_of m"
    using assms(4) by (simp add: readings_of_def q st)
  show "tasks (store (queue (account_test p l m))) = tasks (store (queue m))"
    using assms(4) by (simp add: q st)
  show "current (queue (account_test p l m)) = current (queue m)"
    by (simp add: q CreateOrUpdate_def split: prod.splits sum.splits)
qed

lemma storeResult_store:
  "store (queue (snd (storeResult p v now m))) =
     (if f32_finite v
      then (store (queue m))\<lparr>sequence := Suc (sequence (store (queue m))),
             readings := readings (store (queue m)) @
               [(next_key (store (queue m)), \<lparr>Reading_Param = p, Ts = now, Value = v\<rparr>)]\<rparr>
      else store (queue m))"
  by (simp add: storeResult_def Create_reading_def json_Reading_def Let_def)

lemma storeResult_config [simp]: "config_of (snd (storeResult p v now m)) = config_of m"
  by (simp add: config_of_def Get_def Get_config_def storeResult_store)

lemma storeResult_current [simp]:
  "current (queue (snd (storeResult p v now m))) = current (queue m)"
  by (simp add: storeResult_def Let_def split: prod.splits)

lemma storeResult_tasks [simp]:
  "tasks (store (queue (snd (storeResult p v now m)))) = tasks (store (queue m))"
  by (simp add: storeResult_store)

lemma storeResult_readings:
  "readings_of (snd (storeResult p v now m)) =
     (if f32_finite v then readings_of m @ [\<lparr>Reading_Param = p, Ts = now, Value = v\<rparr>]
      else readings_of m)"
  by (simp add: readings_of_def storeResult_store)


lemma executeTask_test:
  assumes "p \<in> set params" and "Param t = p"
  shows "executeTask t now m =
         test_task p (ToUpper p) (Code t) now
           (appendLog (''%s: Test started'', [S (ToUpper p)]) (m\<lparr>currentParam := p\<rparr>))"
  using params_not_special [OF assms(1)] assms(2)
  by (simp add: executeTask_def Let_def)

lemma exec_test_completed:
  assumes "p \<in> set params" and "Param t = p"
    and "executeTask t now m = Some (Completed, m')"
  shows "\<exists>v. (\<exists>bs. Some bs \<in> set (replies (bus m)) \<and> v = LittleEndian_Uint32 (take 4 (bs @ replicate 4 0))) \<and>
             queue m' = queue (account_test p (ToUpper p) (snd (storeResult p v now m))) \<and>
             currentParam m' = p \<and> devMode m' = devMode m \<and>
             set (replies (bus m')) \<subseteq> set (replies (bus m))"
proof -
  let ?m = "appendLog (''%s: Test started'', [S (ToUpper p)]) (m\<lparr>currentParam := p\<rparr>)"
  from assms have "test_task p (ToUpper p) (Code t) now ?m = Some (Completed, m')"
    by (simp add: executeTask_test)
  from test_task_completed [OF this] obtain v where
    v: "\<exists>bs. Some bs \<in> set (replies (bus ?m)) \<and> v = LittleEndian_Uint32 (take 4 (bs @ replicate 4 0))"
    and q: "queue m' = queue (account_test p (ToUpper p) (snd (storeResult p v now ?m)))"
    and r: "currentParam m' = currentParam ?m" "devMode m' = devMode ?m"
      "set (replies (bus m')) \<subseteq> set (replies (bus ?m))"
    by blast
  have "queue (account_test p (ToUpper p) (snd (storeResult p v now ?m))) =
        queue (account_test p (ToUpper p) (snd (storeResult p v now m)))"
    by (rule account_test_queue_cong, rule storeResult_queue_cong) simp
  with v q r show ?thesis by auto
qed

lemma finite_replies_value:
  assumes "finite_replies m" and "Some bs \<in> set (replies (bus m))"
  shows "f32_finite (LittleEndian_Uint32 (take 4 (bs @ replicate 4 0)))"
  using assms by (auto simp: finite_replies_def list_all_iff)

lemma finite_replies_subset:
  "finite_replies m \<Longrightarrow> set (replies (bus m')) \<subseteq> set (replies (bus m)) \<Longrightarrow> finite_replies m'"
  by (auto simp: finite_replies_def list_all_iff)

lemma test_step:
  assumes "p \<in> set params" and "Param t = p"
    and "executeTask t now m = Some (Completed, m')"
    and "config_of m = Some cfg" and "Config_ID cfg = ''default''"
    and "json_Config (charged p cfg)" and "finite_replies m"
  shows "config_of m' = Some (charged p cfg)"
    and "\<exists>v. readings_of m' = readings_of m @ [\<lparr>Reading_Param = p, Ts = now, Value = v\<rparr>]"
    and "finite_replies m'"
    and "tasks (store (queue m')) = tasks (store (queue m))"
    and "current (queue m') = current (queue m)"
    and "currentParam m' = p"
proof -
  from exec_test_completed [OF assms(1-3)] obtain v bs where
    bs: "Some bs \<in> set (replies (bus m))" "v = LittleEndian_Uint32 (take 4 (bs @ replicate 4 0))"
    and q: "queue m' = queue (account_test p (ToUpper p) (snd (storeResult p v now m)))"
    and r: "currentParam m' = p" "set (replies (bus m')) \<subseteq> set (replies (bus m))"
    by blast
  let ?m1 = "snd (storeResult p v now m)"
  have fin: "f32_finite v"
    using finite_replies_value [OF assms(7) bs(1)] bs(2) by simp
  have c1: "config_of ?m1 = Some cfg"
    using assms(4) by simp
  note acc = account_test_config [OF assms(1) c1 assms(5) assms(6), of "ToUpper p"]
  show "config_of m' = Some (charged p cfg)"
    using acc(1) config_of_cong [OF q] by simp
  show "\<exists>v. readings_of m' = readings_of m @ [\<lparr>Reading_Param = p, Ts = now, Value = v\<rparr>]"
    using acc(2) readings_of_cong [OF q] fin by (auto simp: storeResult_readings)
  show "finite_replies m'"
    using assms(7) r(2) by (rule finite_replies_subset)
  show "tasks (store (queue m')) = tasks (store (queue m))"
    using acc(3) q by simp
  show "current (queue m') = current (queue m)"
    using acc(4) q by simp
  show "currentParam m' = p"
    by (rule r(1))
qed

lemma charged_fields:
  assumes "p \<in> set params"
  shows "remain_of p (charged p c) = f32_sub (remain_of p c) (use_of p c)"
    and "WasteRemaining (charged p c) = f32_add (WasteRemaining c) (use_of p c)"
    and "WasteThreshold (charged p c) = WasteThreshold c"
    and "use_of q (charged p c) = use_of q c"
    and "start_of q (charged p c) = start_of q c"
    and "Config_ID (charged p c) = Config_ID c"
    and "q \<noteq> p \<Longrightarrow> remain_of q (charged p c) = remain_of q c"
  using assms
  by (auto simp: params_cases charged_def set_remain_def remain_of_def use_of_def start_of_def)

lemma charged_funpow:
  assumes "p \<in> set params"
  shows "remain_of p ((charged p ^^ n) c) = ((\<lambda>r. f32_sub r (use_of p c)) ^^ n) (remain_of p c)"
    and "WasteRemaining ((charged p ^^ n) c) = ((\<lambda>w. f32_add w (use_of p c)) ^^ n) (WasteRemaining c)"
    and "use_of q ((charged p ^^ n) c) = use_of q c"
    and "start_of q ((charged p ^^ n) c) = start_of q c"
    and "WasteThreshold ((charged p ^^ n) c) = WasteThreshold c"
    and "Config_ID ((charged p ^^ n) c) = Config_ID c"
proof -
  have u: "use_of q ((charged p ^^ n) c) = use_of q c" for q n
    by (induction n) (simp_all add: charged_fields [OF assms])
  show "use_of q ((charged p ^^ n) c) = use_of q c"
    by (rule u)
  show "remain_of p ((charged p ^^ n) c) = ((\<lambda>r. f32_sub r (use_of p c)) ^^ n) (remain_of p c)"
    by (induction n) (simp_all add: charged_fields [OF assms] u)
  show "WasteRemaining ((charged p ^^ n) c) = ((\<lambda>w. f32_add w (use_of p c)) ^^ n) (WasteRemaining c)"
    by (induction n) (simp_all add: charged_fields [OF assms] u)
  show "start_of q ((charged p ^^ n) c) = start_of q c"
    by (induction n) (simp_all add: charged_fields [OF assms])
  show "WasteThreshold ((charged p ^^ n) c) = WasteThreshold c"
    by (induction n) (simp_all add: charged_fields [OF assms])
  show "Config_ID ((charged p ^^ n) c) = Config_ID c"
    by (induction n) (simp_all add: charged_fields [OF assms])
qed

lemma tests_accounting:
  assumes "p \<in> set params"
  shows "list_all (\<lambda>(t, now). Param t = p) ts \<Longrightarrow>
         run_tasks ts m = Some (exs, m') \<Longrightarrow> list_all (\<lambda>ex. ex = Completed) exs \<Longrightarrow>
         config_of m = Some cfg \<Longrightarrow> Config_ID cfg = ''default'' \<Longrightarrow>
         (\<forall>k \<le> length ts. json_Config ((charged p ^^ k) cfg)) \<Longrightarrow> finite_replies m \<Longrightarrow>
         config_of m' = Some ((charged p ^^ length ts) cfg) \<and>
         (\<exists>vs. length vs = length ts \<and>
               readings_of m' = readings_of m @
                 map (\<lambda>((t, now), v). \<lparr>Reading_Param = p, Ts = now, Value = v\<rparr>) (zip ts vs))"
proof (induction ts arbitrary: m cfg exs)
  case Nil
  then show ?case by simp
next
  case (Cons a ts)
  obtain t now where a: "a = (t, now)" by (cases a)
  from Cons.prems(2) a obtain ex m1 exs1 where
    e1: "executeTask t now m = Some (ex, m1)" and
    e2: "run_tasks ts m1 = Some (exs1, m')" and exs: "exs = ex # exs1"
    by (auto split: option.splits)
  from Cons.prems(3) exs have ex: "ex = Completed" and all1: "list_all (\<lambda>ex. ex = Completed) exs1"
    by simp_all
  from Cons.prems(1) a have pt: "Param t = p" and allp: "list_all (\<lambda>(t, now). Param t = p) ts"
    by simp_all
  from Cons.prems(6) have j1: "json_Config (charged p cfg)"
    by (auto dest: spec [of _ "Suc 0"])
  note step = test_step [OF assms pt e1 [unfolded ex] Cons.prems(4) Cons.prems(5) j1 Cons.prems(7)]
  have id1: "Config_ID (charged p cfg) = ''default''"
    using Cons.prems(5) by (simp add: charged_fields [OF assms])
  have js: "\<forall>k \<le> length ts. json_Config ((charged p ^^ k) (charged p cfg))"
  proof (intro allI impI)
    fix k assume "k \<le> length ts"
    then have "Suc k \<le> length (a # ts)"
      by simp
    with Cons.prems(6) have "json_Config ((charged p ^^ Suc k) cfg)"
      by blast
    then show "json_Config ((charged p ^^ k) (charged p cfg))"
      by (simp add: funpow_swap1)
  qed
  from Cons.IH [OF allp e2 all1 step(1) id1 js step(3)] obtain vs where
    c: "config_of m' = Some ((charged p ^^ length ts) (charged p cfg))" and
    vs: "length vs = length ts"
        "readings_of m' = readings_of m1 @
           map (\<lambda>((t, now), v). \<lparr>Reading_Param = p, Ts = now, Value = v\<rparr>) (zip ts vs)"
    by blast
  from step(2) obtain v where v: "readings_of m1 = readings_of m @ [\<lparr>Reading_Param = p, Ts = now, Value = v\<rparr>]"
    by blast
  have "config_of m' = Some ((charged p ^^ length (a # ts)) cfg)"
    using c by (simp add: funpow_swap1)
  moreover have "length (v # vs) = length (a # ts)"
    using vs(1) by simp
  moreover have "readings_of m' = readings_of m @
      map (\<lambda>((t, now), v). \<lparr>Reading_Param = p, Ts = now, Value = v\<rparr>) (zip (a # ts) (v # vs))"
    using vs(2) v a by simp
  ultimately show ?case by blast
qed


lemma json_charged:
  assumes "p \<in> set params" and "json_Config c"
    and "f32_finite (f32_sub (remain_of p c) (use_of p c))"
    and "f32_finite (f32_add (WasteRemaining c) (use_of p c))"
  shows "json_Config (charged p c)"
proof -
  consider "p = ''ca''" | "p = ''alk''" | "p = ''mg''" | "p = ''no3''" | "p = ''po4''"
    using assms(1) by (auto simp: params_cases)
  then show ?thesis
  proof cases
    case 1
    with assms(2-4) show ?thesis
      by (simp add: json_Config_def charged_def set_remain_def remain_of_def use_of_def)
  next
    case 2
    with assms(2-4) show ?thesis
      by (simp add: json_Config_def charged_def set_remain_def remain_of_def use_of_def)
  next
    case 3
    with assms(2-4) show ?thesis
      by (simp add: json_Config_def charged_def set_remain_def remain_of_def use_of_def)
  next
    case 4
    with assms(2-4) show ?thesis
      by (simp add: json_Config_def charged_def set_remain_def remain_of_def use_of_def)
  next
    case 5
    with assms(2-4) show ?thesis
      by (simp add: json_Config_def charged_def set_remain_def remain_of_def use_of_def)
  qed
qed

lemma json_charged_funpow:
  assumes "p \<in> set params" and "json_Config c"
    and "\<forall>j. 0 < j \<and> j \<le> n \<longrightarrow>
           f32_finite (((\<lambda>r. f32_sub r (use_of p c)) ^^ j) (remain_of p c)) \<and>
           f32_finite (((\<lambda>w. f32_add w (use_of p c)) ^^ j) (WasteRemaining c))"
  shows "k \<le> n \<Longrightarrow> json_Config ((charged p ^^ k) c)"
proof (induction k)
  case 0
  show ?case using assms(2) by simp
next
  case (Suc k)
  then have j: "json_Config ((charged p ^^ k) c)" by simp
  from assms(3) Suc.prems have
    "f32_finite (((\<lambda>r. f32_sub r (use_of p c)) ^^ Suc k) (remain_of p c))"
    "f32_finite (((\<lambda>w. f32_add w (use_of p c)) ^^ Suc k) (WasteRemaining c))"
    by blast+
  then have "f32_finite (f32_sub (remain_of p ((charged p ^^ k) c)) (use_of p ((charged p ^^ k) c)))"
    "f32_finite (f32_add (WasteRemaining ((charged p ^^ k) c)) (use_of p ((charged p ^^ k) c)))"
    by (simp_all add: charged_funpow [OF assms(1)])
  from json_charged [OF assms(1) j this] show ?case by simp
qed

lemma exact_funpow:
  fixes r u :: float32
  assumes "\<forall>k < n. f32_val (f32_sub (((\<lambda>r. f32_sub r u) ^^ k) r) u) =
                     f32_val (((\<lambda>r. f32_sub r u) ^^ k) r) - f32_val u"
  shows "f32_val (((\<lambda>r. f32_sub r u) ^^ n) r) = f32_val r - of_nat n * f32_val u"
  using assms
proof (induction n)
  case 0
  show ?case by simp
next
  case (Suc n)
  then have ih: "f32_val (((\<lambda>r. f32_sub r u) ^^ n) r) = f32_val r - of_nat n * f32_val u"
    by simp
  from Suc.prems have "f32_val (f32_sub (((\<lambda>r. f32_sub r u) ^^ n) r) u) =
                       f32_val (((\<lambda>r. f32_sub r u) ^^ n) r) - f32_val u"
    by simp
  with ih show ?case by (simp add: algebra_simps)
qed



subsection \<open>Runs with a device that answers\<close>

lemma WriteBytes_ok:
  "write_errors (bus m) = [] \<Longrightarrow>
   WriteBytes a bs m = (Inr (), m\<lparr>bus := (bus m)\<lparr>written := written (bus m) @ [(a, bs)]\<rparr>\<rparr>)"
  by (simp add: WriteBytes_def)

lemma ReadBytes_reply:
  "replies (bus m) = Some bs # rs \<Longrightarrow>
   ReadBytes a n m = Some (Inr (take n (bs @ replicate n 0)), m\<lparr>bus := (bus m)\<lparr>replies := rs\<rparr>\<rparr>)"
  by (simp add: ReadBytes_def)

lemma ReadBytes_none: "replies (bus m) = [] \<Longrightarrow> ReadBytes a n m = None"
  by (simp add: ReadBytes_def)

lemma poll_idle:
  assumes "write_errors (bus m) = []" and "replies (bus m) = Some (0 # s) # rs"
  shows "\<exists>m'. poll c m = Some (PollIdle, m') \<and> replies (bus m') = rs \<and>
              write_errors (bus m') = [] \<and> queue m' = queue m \<and> logs m' = logs m \<and>
              currentParam m' = currentParam m \<and> devMode m' = devMode m"
  by (subst poll.simps)
     (simp add: WriteBytes_ok [OF assms(1)] ReadBytes_reply assms Let_def)

lemma poll_busy:
  assumes "write_errors (bus m) = []" and "replies (bus m) = Some (b # s) # rs"
    and "b \<noteq> 0" and "\<not> (c \<and> b = 2)"
  shows "\<exists>m1. poll c m = poll c m1 \<and> replies (bus m1) = rs \<and>
              write_errors (bus m1) = [] \<and> queue m1 = queue m \<and> logs m1 = logs m \<and>
              currentParam m1 = currentParam m \<and> devMode m1 = devMode m"
  by (subst poll.simps, intro exI [of _ "m\<lparr>bus := (bus m)\<lparr>written := written (bus m) @ [(getConfigI2C m, [0x31])], replies := rs\<rparr>\<rparr>"])
     (use assms in \<open>auto simp add: WriteBytes_ok [OF assms(1)] ReadBytes_reply Let_def\<close>)

lemma poll_silent:
  assumes "replies (bus m) = []"
  shows "poll c m = None"
  by (subst poll.simps) (simp add: ReadBytes_none assms Let_def)

lemma test_task_succeeds:
  assumes "write_errors (bus m) = []" and "replies (bus m) = Some (0 # s) # Some bs # rest"
  shows "\<exists>m'. test_task p l c now m = Some (Completed, m') \<and> replies (bus m') = rest \<and>
              write_errors (bus m') = [] \<and> currentParam m' = currentParam m \<and>
              queue m' = queue (account_test p l
                (snd (storeResult p (LittleEndian_Uint32 (take 4 (bs @ replicate 4 0))) now m)))"
proof -
  let ?m1 = "m\<lparr>bus := (bus m)\<lparr>written := written (bus m) @ [(getConfigI2C m, [c])]\<rparr>\<rparr>"
  have w: "WriteBytes (getConfigI2C m) [c] m = (Inr (), ?m1)"
    by (rule WriteBytes_ok [OF assms(1)])
  have "write_errors (bus ?m1) = []" "replies (bus ?m1) = Some (0 # s) # Some bs # rest"
    using assms by simp_all
  from poll_idle [OF this, of True] obtain m2 where
    p2: "poll True ?m1 = Some (PollIdle, m2)" and r2: "replies (bus m2) = Some bs # rest"
    and w2: "write_errors (bus m2) = []" and q2: "queue m2 = queue m"
    and c2: "currentParam m2 = currentParam m"
    by auto
  let ?m3 = "m2\<lparr>bus := (bus m2)\<lparr>written := written (bus m2) @ [(getConfigI2C m2, [0x32])]\<rparr>\<rparr>"
  let ?m4 = "appendLog (''%s: Sent READ_RESULT command (0x32)'', [S l]) ?m3"
  let ?v = "LittleEndian_Uint32 (take 4 (bs @ replicate 4 0))"
  have w3: "WriteBytes (getConfigI2C m2) [0x32] m2 = (Inr (), ?m3)"
    by (rule WriteBytes_ok [OF w2])
  have "replies (bus ?m4) = Some bs # rest"
    using r2 by simp
  note r = ReadBytes_reply [OF this, of "getConfigI2C ?m4" 4]
  note a = test_task_def [of p l c now m, unfolded w prod.case sum.case p2 option.case poll_exit.case]
  note b = a [unfolded Let_def w3 snd_conv]
  note c = b [unfolded r option.case prod.case sum.case]
  obtain m' where e: "test_task p l c now m = Some (Completed, m')"
    and eq: "m' = account_test p l
               (appendLog (''%s: Test completed (%.2f)'', [S l, F ?v])
                 (snd (storeResult p ?v now
                    (appendLog (''%s: Converted to float32: %f'', [S l, F ?v])
                      (appendLog (''%s: Raw bits: 0x%08x'', [S l, W ?v])
                        (appendLog (''%s: Read raw bytes: [%x %x %x %x]'',
                           [S l, X (take 4 (bs @ replicate 4 0) ! 0), X (take 4 (bs @ replicate 4 0) ! 1),
                            X (take 4 (bs @ replicate 4 0) ! 2), X (take 4 (bs @ replicate 4 0) ! 3)])
                           (?m4\<lparr>bus := (bus ?m4)\<lparr>replies := rest\<rparr>\<rparr>)))))))"
    unfolding c by simp
  have "queue m' = queue (account_test p l (snd (storeResult p ?v now m)))"
    unfolding eq
    by (rule account_test_queue_cong) (simp, rule storeResult_queue_cong, simp add: q2)
  moreover have "replies (bus m') = rest" "write_errors (bus m') = []"
    "currentParam m' = currentParam m"
    unfolding eq using w2 c2 by simp_all
  ultimately show ?thesis using e by blast
qed

lemma executeTask_test_succeeds:
  assumes "p \<in> set params" and "Param t = p"
    and "write_errors (bus m) = []" and "replies (bus m) = Some (0 # s) # Some bs # rest"
  shows "\<exists>m'. executeTask t now m = Some (Completed, m') \<and> replies (bus m') = rest \<and>
              write_errors (bus m') = [] \<and> currentParam m' = p \<and>
              queue m' = queue (account_test p (ToUpper p)
                (snd (storeResult p (LittleEndian_Uint32 (take 4 (bs @ replicate 4 0))) now m)))"
proof -
  let ?m = "appendLog (''%s: Test started'', [S (ToUpper p)]) (m\<lparr>currentParam := p\<rparr>)"
  have "write_errors (bus ?m) = []" "replies (bus ?m) = Some (0 # s) # Some bs # rest"
    using assms(3,4) by simp_all
  from test_task_succeeds [OF this, of p "ToUpper p" "Code t" now] obtain m' where
    e: "test_task p (ToUpper p) (Code t) now ?m = Some (Completed, m')" and
    r: "replies (bus m') = rest" "write_errors (bus m') = []" "currentParam m' = currentParam ?m" and
    q: "queue m' = queue (account_test p (ToUpper p)
          (snd (storeResult p (LittleEndian_Uint32 (take 4 (bs @ replicate 4 0))) now ?m)))"
    by blast
  have "queue m' = queue (account_test p (ToUpper p)
          (snd (storeResult p (LittleEndian_Uint32 (take 4 (bs @ replicate 4 0))) now m)))"
    unfolding q by (rule account_test_queue_cong, rule storeResult_queue_cong) simp
  with e r show ?thesis
    by (simp add: executeTask_test [OF assms(1,2)])
qed


lemma json_Config_ID [simp]: "json_Config (c\<lparr>Config_ID := k\<rparr>) = json_Config c"
  by (simp add: json_Config_def)

lemma json_defaultCfg: "json_Config defaultCfg"
  by (simp add: json_Config_def defaultCfg_def f32_finite_def f32_exponent_def)

lemma Setup_new_controller:
  "Setup new_controller =
     (Inr (), new_controller\<lparr>queue := empty_queue\<lparr>store := empty_store\<lparr>configs := [(''default'', defaultCfg)]\<rparr>\<rparr>\<rparr>)"
  using json_defaultCfg
  by (simp add: Setup_def Update_config_def set_store_def new_controller_def empty_queue_def
        empty_store_def has_key_def) (simp add: defaultCfg_def)

lemma controller_with_facts:
  assumes "json_Config cfg"
  shows "config_of (controller_with cfg rs) = Some (cfg\<lparr>Config_ID := ''default''\<rparr>)"
    and "replies (bus (controller_with cfg rs)) = rs"
    and "write_errors (bus (controller_with cfg rs)) = []"
    and "written (bus (controller_with cfg rs)) = []"
    and "readings_of (controller_with cfg rs) = []"
    and "tasks (store (queue (controller_with cfg rs))) = []"
    and "current (queue (controller_with cfg rs)) = None"
    and "currentParam (controller_with cfg rs) = []"
    and "devMode (controller_with cfg rs) = False"
proof -
  have p: "snd (putConfig cfg (snd (Setup new_controller))) =
           appendLog (''AutoTester configuration saved'', [])
             (new_controller\<lparr>queue := empty_queue\<lparr>store := empty_store\<lparr>configs :=
                [(''default'', cfg\<lparr>Config_ID := ''default''\<rparr>)]\<rparr>\<rparr>\<rparr>)"
    using assms unfolding Setup_new_controller snd_conv
    by (simp add: putConfig_def Get_def Get_config_def CreateOrUpdate_def
          Update_config_def has_key_def set_store_def Let_def new_controller_def empty_queue_def
          empty_store_def)
  show "config_of (controller_with cfg rs) = Some (cfg\<lparr>Config_ID := ''default''\<rparr>)"
    unfolding controller_with_def device_replies_def p
    by (simp add: config_of_def Get_def Get_config_def)
  show "replies (bus (controller_with cfg rs)) = rs"
    by (simp add: controller_with_def device_replies_def)
  show "write_errors (bus (controller_with cfg rs)) = []"
    unfolding controller_with_def device_replies_def p
    by (simp add: new_controller_def)
  show "written (bus (controller_with cfg rs)) = []"
    unfolding controller_with_def device_replies_def p
    by (simp add: new_controller_def)
  show "readings_of (controller_with cfg rs) = []"
    unfolding controller_with_def device_replies_def p
    by (simp add: readings_of_def empty_store_def)
  show "tasks (store (queue (controller_with cfg rs))) = []"
    unfolding controller_with_def device_replies_def p
    by (simp add: empty_store_def)
  show "current (queue (controller_with cfg rs)) = None"
    unfolding controller_with_def device_replies_def p
    by (simp add: empty_queue_def)
  show "currentParam (controller_with cfg rs) = []"
    unfolding controller_with_def device_replies_def p
    by (simp add: new_controller_def)
  show "devMode (controller_with cfg rs) = False"
    unfolding controller_with_def device_replies_def p
    by (simp add: new_controller_def)
qed

lemma config_S1_fields:
  "json_Config config_S1" "Config_ID config_S1 = ''default''"
  "remain_of ''ca'' config_S1 = 0x40000000" "use_of ''ca'' config_S1 = 0x40000000"
  "start_of ''ca'' config_S1 = 0x43FA0000"
  "WasteRemaining config_S1 = 0" "WasteThreshold config_S1 = 0x41200000"
  by (simp_all add: config_S1_def defaultCfg_def json_Config_def f32_finite_def f32_exponent_def
        remain_of_def use_of_def start_of_def)

lemma finite_replies_S1: "finite_replies (controller_with config_S1 [Some [0], Some [0x00, 0x40, 0xCD, 0x43]])"
  by (simp add: finite_replies_def controller_with_facts(2) [OF config_S1_fields(1)]
        LittleEndian_Uint32_def f32_finite_def f32_exponent_def)

lemma le32_410_5: "LittleEndian_Uint32 [0x00, 0x40, 0xCD, 0x43] = 0x43CD4000"
  by (simp add: LittleEndian_Uint32_def)

lemma f32_S1:
  "f32_sub 0x40000000 0x40000000 = 0" "f32_add 0 0x40000000 = 0x40000000"
  "f32_val 0x40000000 = 2" "f32_val 0 = 0" "f32_val 0x43CD4000 = 821 / 2"
  "f32_val 0x41200000 = 10"
  by (simp_all add: f32_eval f32_val_def)


subsection \<open>Enqueueing a test and running a round of the worker\<close>

lemma canEnqueueTest_params:
  assumes "p \<in> set params" and "config_of m = Some cfg"
  shows "canEnqueueTest p use m =
         (if f32_lt (remain_of p cfg) use then Inl (ReagentEmpty (ToUpper p))
          else if f32_gt (f32_add (WasteRemaining cfg) use) (WasteThreshold cfg)
            then Inl WasteThresholdReached
          else Inr ())"
proof -
  from assms(2) have g: "Get ''default'' m = Inr cfg"
    by (simp add: config_of_Get)
  consider "p = ''ca''" | "p = ''alk''" | "p = ''mg''" | "p = ''no3''" | "p = ''po4''"
    using assms(1) by (auto simp: params_cases)
  then show ?thesis
    by cases
       (simp_all add: canEnqueueTest_def g remain_of_def Let_def ToUpper_def char_of_def
          bit_iff_odd_drop_bit drop_bit_eq_div)
qed

lemma runOne_accepted:
  assumes "map_of [(''ca'', 0x11), (''alk'', 0x12), (''mg'', 0x13), (''no3'', 0x14), (''po4'', 0x15)] p
             = Some code"
    and "config_of m = Some cfg"
    and "canEnqueueTest p (use_of p cfg) m = Inr ()"
    and "\<not> is_current (queue m) p" and "p \<notin> set (queued_params (queue m))"
  shows "runOne p now m =
         (NoContent,
          appendLog (''%s: Manual test enqueued'', [S (ToUpper p)])
            (m\<lparr>queue := (queue m)\<lparr>store := (store (queue m))\<lparr>sequence := Suc (sequence (store (queue m))),
                    tasks := tasks (store (queue m)) @
                      [(next_key (store (queue m)),
                        \<lparr>ID = next_key (store (queue m)), Param = p, Code = code, Time = now\<rparr>)]\<rparr>,
                  signals := Suc (signals (queue m))\<rparr>\<rparr>))"
proof -
  from assms(2) have g: "Get ''default'' m = Inr cfg"
    by (simp add: config_of_Get)
  have u: "(if p = ''ca'' then ReagentUseCa cfg else if p = ''alk'' then ReagentUseAlk cfg
            else if p = ''mg'' then ReagentUseMg cfg else if p = ''no3'' then ReagentUseNo3 cfg
            else if p = ''po4'' then ReagentUsePo4 cfg else 0) = use_of p cfg"
    by (simp add: use_of_def)
  show ?thesis
    unfolding runOne_def assms(1) option.case g sum.case Let_def u assms(3)
      AddTask_fresh [OF assms(4,5)] prod.case
    by simp
qed

lemma dequeue_next:
  assumes "next_task (tasks (store q)) = Some (k, t)"
  shows "dequeue q =
         (Some t, q\<lparr>store := (store q)\<lparr>tasks := filter (\<lambda>(key, t). key \<noteq> k) (tasks (store q))\<rparr>,
                   current := Some t\<rparr>)"
  by (simp add: dequeue_def assms Delete_task_def)

lemma worker_round_test:
  assumes "next_task (tasks (store (queue m))) = Some (k, t)"
    and "p \<in> set params" and "Param t = p"
    and "write_errors (bus m) = []" and "replies (bus m) = Some (0 # s) # Some bs # rest"
    and "config_of m = Some cfg" and "Config_ID cfg = ''default''"
    and "json_Config (charged p cfg)"
    and "f32_finite (LittleEndian_Uint32 (take 4 (bs @ replicate 4 0)))"
  shows "\<exists>m'. worker_round now m = Some (Some Completed, m') \<and>
              config_of m' = Some (charged p cfg) \<and>
              readings_of m' = readings_of m @
                [\<lparr>Reading_Param = p, Ts = now,
                  Value = LittleEndian_Uint32 (take 4 (bs @ replicate 4 0))\<rparr>] \<and>
              tasks (store (queue m')) = filter (\<lambda>(key, t). key \<noteq> k) (tasks (store (queue m))) \<and>
              current (queue m') = None \<and> currentParam m' = p \<and>
              replies (bus m') = rest \<and> write_errors (bus m') = [] \<and>
              devMode m' = devMode m"
proof -
  let ?q = "(queue m)\<lparr>store := (store (queue m))\<lparr>tasks :=
              filter (\<lambda>(key, t). key \<noteq> k) (tasks (store (queue m)))\<rparr>, current := Some t\<rparr>"
  let ?m = "m\<lparr>queue := ?q\<rparr>"
  let ?v = "LittleEndian_Uint32 (take 4 (bs @ replicate 4 0))"
  have d: "dequeue (queue m) = (Some t, ?q)"
    by (rule dequeue_next [OF assms(1)])
  have "write_errors (bus ?m) = []" "replies (bus ?m) = Some (0 # s) # Some bs # rest"
    using assms(4,5) by simp_all
  from executeTask_test_succeeds [OF assms(2,3) this, of now] obtain m1 where
    e: "executeTask t now ?m = Some (Completed, m1)" and
    r: "replies (bus m1) = rest" "write_errors (bus m1) = []" "currentParam m1 = p" and
    q: "queue m1 = queue (account_test p (ToUpper p) (snd (storeResult p ?v now ?m)))"
    by blast
  have c0: "config_of ?m = Some cfg"
    using assms(6) by (simp add: config_of_def Get_def Get_config_def)
  then have c1: "config_of (snd (storeResult p ?v now ?m)) = Some cfg"
    by simp
  note acc = account_test_config [OF assms(2) c1 assms(7) assms(8), of "ToUpper p"]
  let ?m' = "m1\<lparr>queue := mark_done (queue m1)\<rparr>"
  have w: "worker_round now m = Some (Some Completed, ?m')"
    by (simp add: worker_round_def d e)
  have "config_of ?m' = Some (charged p cfg)"
    using acc(1) q by (simp add: config_of_def Get_def Get_config_def mark_done_def)
  moreover have "readings_of ?m' = readings_of m @ [\<lparr>Reading_Param = p, Ts = now, Value = ?v\<rparr>]"
    using acc(2) q assms(9)
    by (simp add: readings_of_def mark_done_def storeResult_store)
  moreover have "tasks (store (queue ?m')) = filter (\<lambda>(key, t). key \<noteq> k) (tasks (store (queue m)))"
    using acc(3) q by (simp add: mark_done_def)
  moreover have "current (queue ?m') = None"
    by (simp add: mark_done_def)
  moreover have "currentParam ?m' = p" "replies (bus ?m') = rest" "write_errors (bus ?m') = []"
    using r by simp_all
  moreover have "devMode ?m' = devMode m"
    using exec_test_completed [OF assms(2,3) e] by auto
  ultimately show ?thesis using w by blast
qed


subsection \<open>Flush, pump and calibration tasks\<close>

lemma WriteBytes_queue: "WriteBytes a bs m = (r, m1) \<Longrightarrow> queue m1 = queue m"
  using WriteBytes_frame(1) [of a bs m] by simp

lemma readFloat_queue: "readFloat op m = Some (r, m') \<Longrightarrow> queue m' = queue m"
  by (auto simp: readFloat_def Let_def split: prod.splits sum.splits option.splits
        dest!: WriteBytes_queue ReadBytes_frame(1))

lemma pump_task_queue:
  assumes "pump_task c m = Some (ex, m')"
  shows "queue m' = queue m"
  using assms
  by (auto simp: pump_task_def Let_def split: prod.splits sum.splits option.splits poll_exit.splits
        dest!: WriteBytes_queue poll_frame)

lemma calibration_task_queue:
  assumes "calibration_task p c m = Some (ex, m')"
  shows "queue m' = queue m"
  using assms
  by (auto simp: calibration_task_def Let_def
        split: prod.splits sum.splits option.splits poll_exit.splits
        dest!: WriteBytes_queue poll_frame readFloat_queue)

lemma refilled_eq:
  "(if rl = ''ca'' then cfg\<lparr>ReagentRemainCa := ReagentStartCa cfg\<rparr>
    else if rl = ''alk'' then cfg\<lparr>ReagentRemainAlk := ReagentStartAlk cfg\<rparr>
    else if rl = ''mg'' then cfg\<lparr>ReagentRemainMg := ReagentStartMg cfg\<rparr>
    else if rl = ''no3'' then cfg\<lparr>ReagentRemainNo3 := ReagentStartNo3 cfg\<rparr>
    else if rl = ''po4'' then cfg\<lparr>ReagentRemainPo4 := ReagentStartPo4 cfg\<rparr>
    else cfg) = refilled rl cfg"
  by (simp add: refilled_def set_remain_def start_of_def)

lemma flush_task_queue:
  assumes "flush_task p c m = Some (ex, m')"
  shows "queue m' = queue m \<or>
         (ex = Completed \<and>
          (\<exists>cfg. Get ''default'' m = Inr cfg \<and>
             queue m' = queue (snd (CreateOrUpdate (refilled (TrimPrefix p ''flush_'') cfg) m))))"
proof -
  let ?m = "appendLog (''%s: Flush started'', [S (ToUpper (TrimPrefix p ''flush_''))]) m"
  obtain r m1 where w: "WriteBytes (getConfigI2C ?m) [c] ?m = (r, m1)"
    by (cases "WriteBytes (getConfigI2C ?m) [c] ?m")
  then have q1: "queue m1 = queue m"
    by (auto dest: WriteBytes_queue)
  show ?thesis
  proof (cases r)
    case (Inl err)
    with assms w q1 show ?thesis
      by (auto simp: flush_task_def Let_def)
  next
    case (Inr u)
    with assms w obtain pe m2 where p2: "poll False m1 = Some (pe, m2)"
      by (auto simp: flush_task_def Let_def split: option.splits)
    from poll_frame [OF p2] q1 have q2: "queue m2 = queue m"
      by simp
    note a = assms [unfolded flush_task_def Let_def w prod.case Inr sum.case p2 option.case refilled_eq]
    show ?thesis
    proof (cases pe)
      case PollIdle
      let ?m3 = "appendLog (''%s: Flush completed'', [S (ToUpper (TrimPrefix p ''flush_''))]) m2"
      have g: "Get ''default'' ?m3 = Get ''default'' m"
        by (rule Get_cong) (simp add: q2)
      show ?thesis
      proof (cases "Get ''default'' m")
        case (Inl err)
        with a PollIdle g q2 show ?thesis by auto
      next
        case (Inr cfg)
        have "queue (snd (CreateOrUpdate (refilled (TrimPrefix p ''flush_'') cfg) ?m3)) =
              queue (snd (CreateOrUpdate (refilled (TrimPrefix p ''flush_'') cfg) m))"
          by (rule CreateOrUpdate_queue_cong) (simp add: q2)
        with a PollIdle g Inr show ?thesis by auto
      qed
    next
      case PollReadError
      with a q2 show ?thesis by auto
    next
      case PollDeviceError
      with a show ?thesis by simp
    qed
  qed
qed

lemma refilled_fields [simp]:
  "WasteRemaining (refilled p c) = WasteRemaining c"
  "WasteThreshold (refilled p c) = WasteThreshold c"
  "Config_ID (refilled p c) = Config_ID c"
  by (simp_all add: refilled_def set_remain_def)


lemma poll_False_run:
  assumes "list_all (\<lambda>b. b \<noteq> 0) busy"
  shows "write_errors (bus m) = [] \<Longrightarrow>
         replies (bus m) = map (\<lambda>b. Some [b]) busy @ Some (0 # s) # rest \<Longrightarrow>
         \<exists>m'. poll False m = Some (PollIdle, m') \<and> replies (bus m') = rest \<and>
              write_errors (bus m') = [] \<and> queue m' = queue m \<and> logs m' = logs m \<and>
              currentParam m' = currentParam m \<and> devMode m' = devMode m"
  using assms
proof (induction busy arbitrary: m)
  case Nil
  then show ?case using poll_idle [of m s rest False] by simp
next
  case (Cons b busy)
  from Cons.prems have b: "b \<noteq> 0" and rest: "list_all (\<lambda>b. b \<noteq> 0) busy"
    by simp_all
  from Cons.prems have r: "replies (bus m) = Some (b # []) # (map (\<lambda>b. Some [b]) busy @ Some (0 # s) # rest)"
    by simp
  from poll_busy [OF Cons.prems(1) r b] obtain m1 where
    m1: "poll False m = poll False m1" "replies (bus m1) = map (\<lambda>b. Some [b]) busy @ Some (0 # s) # rest"
      "write_errors (bus m1) = []" "queue m1 = queue m" "logs m1 = logs m"
      "currentParam m1 = currentParam m" "devMode m1 = devMode m"
    by auto
  from Cons.IH [OF m1(3) m1(2) rest] m1 show ?case
    by auto
qed

lemma poll_False_stuck:
  assumes "list_all (\<lambda>b. b \<noteq> 0) busy"
  shows "write_errors (bus m) = [] \<Longrightarrow> replies (bus m) = map (\<lambda>b. Some [b]) busy \<Longrightarrow>
         poll False m = None"
  using assms
proof (induction busy arbitrary: m)
  case Nil
  then show ?case by (simp add: poll_silent)
next
  case (Cons b busy)
  from Cons.prems have b: "b \<noteq> 0" and rest: "list_all (\<lambda>b. b \<noteq> 0) busy"
    by simp_all
  from Cons.prems have r: "replies (bus m) = Some (b # []) # map (\<lambda>b. Some [b]) busy"
    by simp
  from poll_busy [OF Cons.prems(1) r b] obtain m1 where
    m1: "poll False m = poll False m1" "replies (bus m1) = map (\<lambda>b. Some [b]) busy"
      "write_errors (bus m1) = []"
    by auto
  from Cons.IH [OF m1(3) m1(2) rest] m1 show ?case
    by simp
qed

lemma json_refilled: "json_Config c \<Longrightarrow> json_Config (refilled p c)"
  by (simp add: json_Config_def refilled_def set_remain_def start_of_def)

lemma flush_task_run:
  assumes "write_errors (bus m) = []"
    and "replies (bus m) = map (\<lambda>b. Some [b]) busy @ Some (0 # s) # rest"
    and "list_all (\<lambda>b. b \<noteq> 0) busy"
    and "config_of m = Some cfg" and "Config_ID cfg = ''default''" and "json_Config cfg"
  shows "\<exists>m'. flush_task p c m = Some (Completed, m') \<and> replies (bus m') = rest \<and>
              currentParam m' = currentParam m \<and>
              config_of m' = Some (refilled (TrimPrefix p ''flush_'') cfg) \<and>
              readings_of m' = readings_of m \<and>
              logs m' = logs
                (appendLog (''%s: Reagent refilled to start volume; Waste remaining: %.1f mL'',
                            [S (ToUpper (TrimPrefix p ''flush_'')), F (WasteRemaining cfg)])
                  (appendLog (''%s: Flush completed'', [S (ToUpper (TrimPrefix p ''flush_''))])
                    (appendLog (''%s: Flush started'', [S (ToUpper (TrimPrefix p ''flush_''))]) m)))"
proof -
  let ?l = "ToUpper (TrimPrefix p ''flush_'')"
  let ?m = "appendLog (''%s: Flush started'', [S ?l]) m"
  let ?m1 = "?m\<lparr>bus := (bus ?m)\<lparr>written := written (bus ?m) @ [(getConfigI2C ?m, [c])]\<rparr>\<rparr>"
  have we: "write_errors (bus ?m) = []"
    using assms(1) by simp
  have w: "WriteBytes (getConfigI2C ?m) [c] ?m = (Inr (), ?m1)"
    by (rule WriteBytes_ok [OF we])
  have "write_errors (bus ?m1) = []"
    "replies (bus ?m1) = map (\<lambda>b. Some [b]) busy @ Some (0 # s) # rest"
    using assms(1,2) by simp_all
  from poll_False_run [OF assms(3) this] obtain m2 where
    p2: "poll False ?m1 = Some (PollIdle, m2)" and
    m2: "replies (bus m2) = rest" "queue m2 = queue m" "logs m2 = logs ?m"
      "currentParam m2 = currentParam m"
    by auto
  let ?m3 = "appendLog (''%s: Flush completed'', [S ?l]) m2"
  from assms(4) have "Get ''default'' m = Inr cfg"
    by (simp add: config_of_Get)
  then have g: "Get ''default'' ?m3 = Inr cfg"
    using Get_cong [of ?m3 m] m2(2) by simp
  let ?c = "refilled (TrimPrefix p ''flush_'') cfg"
  let ?m' = "appendLog (''%s: Reagent refilled to start volume; Waste remaining: %.1f mL'',
                        [S ?l, F (WasteRemaining ?c)]) (snd (CreateOrUpdate ?c ?m3))"
  have e: "flush_task p c m = Some (Completed, ?m')"
    unfolding flush_task_def Let_def w prod.case sum.case p2 option.case poll_exit.case g
      refilled_eq
    by simp
  have st: "store (queue (snd (CreateOrUpdate ?c ?m3))) =
            (store (queue ?m3))\<lparr>configs := put ''default'' ?c (configs (store (queue ?m3)))\<rparr>"
    using CreateOrUpdate_default [OF g, of ?c] assms(5) json_refilled [OF assms(6)]
    by simp
  have "config_of ?m' = Some ?c"
    by (simp add: config_of_def Get_def Get_config_def st map_of_put)
  moreover have "readings_of ?m' = readings_of m"
    using m2(2) by (simp add: readings_of_def st)
  moreover have "replies (bus ?m') = rest" "currentParam ?m' = currentParam m"
    using m2 by simp_all
  moreover have "logs ?m' = logs
       (appendLog (''%s: Reagent refilled to start volume; Waste remaining: %.1f mL'',
                   [S ?l, F (WasteRemaining cfg)])
         (appendLog (''%s: Flush completed'', [S ?l]) ?m))"
    using m2(3) by (simp add: appendLog_def Let_def)
  ultimately show ?thesis using e by blast
qed

lemma flush_task_stuck:
  assumes "write_errors (bus m) = []" and "replies (bus m) = map (\<lambda>b. Some [b]) busy"
    and "list_all (\<lambda>b. b \<noteq> 0) busy"
  shows "flush_task p c m = None"
proof -
  let ?l = "ToUpper (TrimPrefix p ''flush_'')"
  let ?m = "appendLog (''%s: Flush started'', [S ?l]) m"
  let ?m1 = "?m\<lparr>bus := (bus ?m)\<lparr>written := written (bus ?m) @ [(getConfigI2C ?m, [c])]\<rparr>\<rparr>"
  have we: "write_errors (bus ?m) = []"
    using assms(1) by simp
  have w: "WriteBytes (getConfigI2C ?m) [c] ?m = (Inr (), ?m1)"
    by (rule WriteBytes_ok [OF we])
  have "write_errors (bus ?m1) = []" "replies (bus ?m1) = map (\<lambda>b. Some [b]) busy"
    using assms(1,2) by simp_all
  from poll_False_stuck [OF assms(3) this] have p2: "poll False ?m1 = None" .
  show ?thesis
    unfolding flush_task_def Let_def w prod.case sum.case p2 option.case
    by simp
qed


subsection \<open>Flush on a device that reports an error\<close>

lemma controller_with_logs:
  assumes "json_Config cfg"
  shows "logs (controller_with cfg rs) = [(''AutoTester configuration saved'', [])]"
proof -
  have p: "snd (putConfig cfg (snd (Setup new_controller))) =
           appendLog (''AutoTester configuration saved'', [])
             (new_controller\<lparr>queue := empty_queue\<lparr>store := empty_store\<lparr>configs :=
                [(''default'', cfg\<lparr>Config_ID := ''default''\<rparr>)]\<rparr>\<rparr>\<rparr>)"
    using assms unfolding Setup_new_controller snd_conv
    by (simp add: putConfig_def Get_def Get_config_def CreateOrUpdate_def Update_config_def
          has_key_def set_store_def Let_def new_controller_def empty_queue_def empty_store_def)
  show ?thesis
    unfolding controller_with_def device_replies_def p
    by (simp add: new_controller_def appendLog_def)
qed

lemma config_of_frame [simp]:
  "config_of (appendLog e m) = config_of m"
  "config_of (m\<lparr>currentParam := x\<rparr>) = config_of m"
  "config_of (m\<lparr>bus := b\<rparr>) = config_of m"
  "config_of (m\<lparr>logs := l\<rparr>) = config_of m"
  by (simp_all add: config_of_def Get_def)

lemma readings_of_frame [simp]:
  "readings_of (appendLog e m) = readings_of m"
  "readings_of (m\<lparr>currentParam := x\<rparr>) = readings_of m"
  "readings_of (m\<lparr>bus := b\<rparr>) = readings_of m"
  "readings_of (m\<lparr>logs := l\<rparr>) = readings_of m"
  by (simp_all add: readings_of_def)

lemma executeTask_flush:
  assumes "HasPrefix (Param t) ''flush_''"
  shows "executeTask t now m =
         flush_task (Param t) (Code t)
           (appendLog (''%s: Flush started'', [S (ToUpper (TrimPrefix (Param t) ''flush_''))])
              (m\<lparr>currentParam := Param t\<rparr>))"
  using assms by (simp add: executeTask_def Let_def)

lemma flush_ca_strings:
  "HasPrefix (Param flush_ca) ''flush_''" "TrimPrefix ''flush_ca'' ''flush_'' = ''ca''"
  "ToUpper ''ca'' = ''CA''" "Param flush_ca = ''flush_ca''" "Code flush_ca = 0x27"
  by (simp_all add: flush_ca_def HasPrefix_def TrimPrefix_def ToUpper_def char_of_def
        bit_iff_odd_drop_bit drop_bit_eq_div)

lemma config_used_fields:
  "json_Config config_used" "Config_ID config_used = ''default''"
  "config_used\<lparr>Config_ID := ''default''\<rparr> = config_used"
  "remain_of ''ca'' config_used = 0x43F90000" "start_of ''ca'' config_used = 0x43FA0000"
  "WasteRemaining config_used = 0"
  "remain_of ''ca'' (refilled ''ca'' config_used) = 0x43FA0000"
  by (simp_all add: config_used_def defaultCfg_def json_Config_def f32_finite_def f32_exponent_def
        remain_of_def start_of_def refilled_def set_remain_def)

text \<open>
  C1.  The configuration has \<open>reagent_remain_ca = 498.0\<close> and \<open>reagent_start_ca = 500.0\<close>.
  The task \<open>flush_ca\<close> runs on a device that reports status 2 and then status 0: the
  flush does not abort on the 2, it runs to completion, resets \<open>reagent_remain_ca\<close> to
  \<open>500.0\<close> and logs no error.  On a device that reports status 2 and nothing after it,
  the task is still polling when the replies end.
\<close>

theorem C1_flush_polls_through_status_2:
  "map_option (remain_of ''ca'') (config_of (controller_with config_used [Some [2], Some [0]])) =
     Some 0x43F90000 \<and>
   exits (executeTask flush_ca 1001 (controller_with config_used [Some [2], Some [0]])) =
     Some Completed \<and>
   map_option (remain_of ''ca'')
     (left_config (executeTask flush_ca 1001 (controller_with config_used [Some [2], Some [0]]))) =
     Some 0x43FA0000 \<and>
   left_logs (executeTask flush_ca 1001 (controller_with config_used [Some [2], Some [0]])) =
     [(''AutoTester configuration saved'', []),
      (''%s: Flush started'', [S ''CA'']),
      (''%s: Flush started'', [S ''CA'']),
      (''%s: Flush completed'', [S ''CA'']),
      (''%s: Reagent refilled to start volume; Waste remaining: %.1f mL'', [S ''CA'', F 0])] \<and>
   executeTask flush_ca 1001 (controller_with config_used [Some [2]]) = None \<and>
   f32_val 0x43F90000 = 498 \<and> f32_val 0x43FA0000 = 500"
proof -
  note f = controller_with_facts [OF config_used_fields(1)]
  note l = controller_with_logs [OF config_used_fields(1)]
  let ?m = "controller_with config_used [Some [2], Some [0]]"
  let ?ma = "appendLog (''%s: Flush started'', [S ''CA'']) (?m\<lparr>currentParam := ''flush_ca''\<rparr>)"
  have c: "config_of ?m = Some config_used"
    using f(1) [of "[Some [2], Some [0]]"] by (simp add: config_used_fields(3))
  have c0: "config_of ?ma = Some config_used"
    using c by simp
  have "write_errors (bus ?ma) = []"
    "replies (bus ?ma) = map (\<lambda>b. Some [b]) [2] @ Some (0 # []) # []"
    "list_all (\<lambda>b. b \<noteq> 0) [2 :: byte]"
    by (simp_all add: f)
  from flush_task_run [OF this c0 config_used_fields(2) config_used_fields(1), of "''flush_ca''" "0x27"]
  obtain m' where
    e: "flush_task ''flush_ca'' 0x27 ?ma = Some (Completed, m')" and
    c': "config_of m' = Some (refilled ''ca'' config_used)" and
    l': "logs m' = logs
           (appendLog (''%s: Reagent refilled to start volume; Waste remaining: %.1f mL'',
                       [S ''CA'', F (WasteRemaining config_used)])
             (appendLog (''%s: Flush completed'', [S ''CA''])
               (appendLog (''%s: Flush started'', [S ''CA'']) ?ma)))"
    using flush_ca_strings by auto
  have ex: "executeTask flush_ca 1001 ?m = Some (Completed, m')"
    using e by (simp add: executeTask_flush [OF flush_ca_strings(1)] flush_ca_strings)
  let ?n = "controller_with config_used [Some [2]]"
  let ?na = "appendLog (''%s: Flush started'', [S ''CA'']) (?n\<lparr>currentParam := ''flush_ca''\<rparr>)"
  have "write_errors (bus ?na) = []" "replies (bus ?na) = map (\<lambda>b. Some [b]) [2]"
    "list_all (\<lambda>b. b \<noteq> 0) [2 :: byte]"
    by (simp_all add: f)
  from flush_task_stuck [OF this, of "''flush_ca''" "0x27"]
  have stuck: "executeTask flush_ca 1001 ?n = None"
    by (simp add: executeTask_flush [OF flush_ca_strings(1)] flush_ca_strings)
  have "logs m' =
     [(''AutoTester configuration saved'', []),
      (''%s: Flush started'', [S ''CA'']),
      (''%s: Flush started'', [S ''CA'']),
      (''%s: Flush completed'', [S ''CA'']),
      (''%s: Reagent refilled to start volume; Waste remaining: %.1f mL'', [S ''CA'', F 0])]"
    unfolding l' by (simp add: appendLog_def l config_used_fields)
  moreover have "f32_val 0x43F90000 = 498" "f32_val 0x43FA0000 = 500"
    by (simp_all add: f32_val_def f32_units_def f32_magnitude_def f32_negative_def
          f32_exponent_def f32_fraction_def)
  ultimately show ?thesis
    using c c' ex stuck
    by (simp add: exits_def left_config_def left_logs_def config_used_fields)
qed

subsection \<open>The status endpoint\<close>

lemma statusOne_reply:
  assumes "\<not> devMode m" and "write_errors (bus m) = []" and "replies (bus m) = Some (b # s) # rs"
  shows "exits (statusOne m) = Some (StatusBody (uint b) (currentParam m))"
proof -
  let ?m1 = "m\<lparr>bus := (bus m)\<lparr>written := written (bus m) @ [(getConfigI2C m, [0x31])]\<rparr>\<rparr>"
  have w: "WriteBytes (getConfigI2C m) [0x31] m = (Inr (), ?m1)"
    by (rule WriteBytes_ok [OF assms(2)])
  have "replies (bus ?m1) = Some (b # s) # rs"
    using assms(3) by simp
  note r = ReadBytes_reply [OF this, of "getConfigI2C m" 1]
  show ?thesis
    unfolding statusOne_def Let_def w prod.case sum.case r option.case exits_def
    using assms(1) by simp
qed

lemma executeTask_pump:
  assumes "Param t = ''pump''"
  shows "executeTask t now m = pump_task (Code t) (m\<lparr>currentParam := ''pump''\<rparr>)"
  using assms by (simp add: executeTask_def Let_def HasPrefix_def)

lemma pump_task_run:
  assumes "write_errors (bus m) = []" and "replies (bus m) = Some (0 # s) # rest"
  shows "\<exists>m'. pump_task c m = Some (Completed, m') \<and> currentParam m' = [] \<and>
              replies (bus m') = rest \<and> write_errors (bus m') = [] \<and> devMode m' = devMode m"
proof -
  let ?m = "appendLog (''PUMP: Calibration test started. Pumping 50.0 mL. Please wait...'', []) m"
  let ?ma = "?m\<lparr>bus := (bus ?m)\<lparr>written := written (bus ?m) @ [(getConfigI2C ?m, [c])]\<rparr>\<rparr>"
  have we: "write_errors (bus ?m) = []"
    using assms(1) by simp
  have w: "WriteBytes (getConfigI2C ?m) [c] ?m = (Inr (), ?ma)"
    by (rule WriteBytes_ok [OF we])
  have "write_errors (bus ?ma) = []" "replies (bus ?ma) = Some (0 # s) # rest"
    using assms by simp_all
  from poll_idle [OF this, of False] obtain mb where
    p2: "poll False ?ma = Some (PollIdle, mb)" and
    mb: "replies (bus mb) = rest" "write_errors (bus mb) = []" "devMode mb = devMode m"
    by auto
  show ?thesis
    unfolding pump_task_def Let_def w prod.case sum.case p2 option.case poll_exit.case
    using mb by simp
qed

lemma defaultCfg_fields:
  "Config_ID defaultCfg = ''default''" "defaultCfg\<lparr>Config_ID := ''default''\<rparr> = defaultCfg"
  "remain_of ''ca'' defaultCfg = 0x43FA0000" "use_of ''ca'' defaultCfg = 0x40000000"
  "WasteRemaining defaultCfg = 0" "WasteThreshold defaultCfg = 0x447A0000"
  by (simp_all add: defaultCfg_def remain_of_def use_of_def)

lemma test_ca_fields: "Param test_ca = ''ca''" "Code test_ca = 0x11" "''ca'' \<in> set params"
  by (simp_all add: test_ca_def params_def)

text \<open>
  C8.  \<^verbatim>\<open>POST /run/ca\<close> on an idle controller with the default configuration; the worker
  runs the test to its end (the device reports idle and the value 410.5).  The worker
  is then between tasks (no task is in progress, the queue is empty), and
  \<^verbatim>\<open>GET /status/ca\<close> responds with the param \<open>ca\<close>, not with the empty string.  The
  same holds after a flush; only the pump calibration (and the parameter calibration)
  clears \<^verbatim>\<open>currentParam\<close> at its end.
\<close>

theorem C8_status_param_after_test:
  "fst (runOne ''ca'' 1000
      (controller_with defaultCfg [Some [0], Some [0x00, 0x40, 0xCD, 0x43], Some [0]])) = NoContent \<and>
   exits (worker_round 1001 (snd (runOne ''ca'' 1000
      (controller_with defaultCfg [Some [0], Some [0x00, 0x40, 0xCD, 0x43], Some [0]])))) =
     Some (Some Completed) \<and>
   current (queue (state_after (worker_round 1001 (snd (runOne ''ca'' 1000
      (controller_with defaultCfg [Some [0], Some [0x00, 0x40, 0xCD, 0x43], Some [0]])))))) = None \<and>
   tasks (store (queue (state_after (worker_round 1001 (snd (runOne ''ca'' 1000
      (controller_with defaultCfg [Some [0], Some [0x00, 0x40, 0xCD, 0x43], Some [0]]))))))) = [] \<and>
   exits (statusOne (state_after (worker_round 1001 (snd (runOne ''ca'' 1000
      (controller_with defaultCfg [Some [0], Some [0x00, 0x40, 0xCD, 0x43], Some [0]])))))) =
     Some (StatusBody 0 ''ca'') \<and>
   left_param (executeTask flush_ca 1001 (controller_with defaultCfg [Some [0]])) =
     Some ''flush_ca'' \<and>
   left_param (executeTask pump_start 1001 (controller_with defaultCfg [Some [0]])) = Some ''''"
proof -
  note f = controller_with_facts [OF json_defaultCfg]
  let ?rs = "[Some [0], Some [0x00, 0x40, 0xCD, 0x43], Some [0 :: byte]]"
  let ?m = "controller_with defaultCfg ?rs"
  have c: "config_of ?m = Some defaultCfg"
    using f(1) [of ?rs] by (simp add: defaultCfg_fields)
  have gate: "canEnqueueTest ''ca'' (use_of ''ca'' defaultCfg) ?m = Inr ()"
    by (simp add: canEnqueueTest_params [OF test_ca_fields(3) c] defaultCfg_fields f32_eval)
  have idle: "\<not> is_current (queue ?m) ''ca''" "''ca'' \<notin> set (queued_params (queue ?m))"
    by (simp_all add: is_current_def queued_params_def f)
  have code: "map_of [(''ca'', 0x11), (''alk'', 0x12), (''mg'', 0x13), (''no3'', 0x14), (''po4'', 0x15 :: byte)] ''ca''
               = Some 0x11"
    by simp
  note run = runOne_accepted [OF code c gate idle, of 1000]
  let ?ma = "snd (runOne ''ca'' 1000 ?m)"
  let ?k = "next_key (store (queue ?m))"
  let ?t = "\<lparr>ID = ?k, Param = ''ca'', Code = 0x11, Time = 1000\<rparr>"
  have nt: "next_task (tasks (store (queue ?ma))) = Some (?k, ?t)"
    by (simp add: run f next_task_def scan_def)
  have b: "write_errors (bus ?ma) = []"
    "replies (bus ?ma) = Some (0 # []) # Some [0x00, 0x40, 0xCD, 0x43] # [Some [0]]"
    by (simp_all add: run f)
  have ca: "config_of ?ma = Some defaultCfg"
    using c by (simp add: run config_of_def Get_def Get_config_def)
  have j: "json_Config (charged ''ca'' defaultCfg)"
    by (rule json_charged [OF test_ca_fields(3) json_defaultCfg])
       (simp_all add: defaultCfg_fields f32_eval)
  have fin: "f32_finite (LittleEndian_Uint32 (take 4 ([0x00, 0x40, 0xCD, 0x43] @ replicate 4 0)))"
    by (simp add: LittleEndian_Uint32_def f32_finite_def f32_exponent_def)
  have pt: "Param ?t = ''ca''"
    by simp
  from worker_round_test [OF nt test_ca_fields(3) pt b ca defaultCfg_fields(1) j fin, of 1001]
  obtain m' where
    w: "worker_round 1001 ?ma = Some (Some Completed, m')" and
    m': "tasks (store (queue m')) = filter (\<lambda>(key, t). key \<noteq> ?k) (tasks (store (queue ?ma)))"
      "current (queue m') = None" "currentParam m' = ''ca''"
      "replies (bus m') = [Some [0]]" "write_errors (bus m') = []" "devMode m' = devMode ?ma"
    by blast
  have dm: "\<not> devMode m'"
    using m'(6) by (simp add: run f)
  have st: "exits (statusOne m') = Some (StatusBody 0 ''ca'')"
    using statusOne_reply [OF dm m'(5), of 0 "[]" "[]"] m'(3,4) by simp
  have tk: "tasks (store (queue m')) = []"
    unfolding m'(1) by (simp add: run f)
  let ?n = "controller_with defaultCfg [Some [0]]"
  let ?na = "appendLog (''%s: Flush started'', [S ''CA'']) (?n\<lparr>currentParam := ''flush_ca''\<rparr>)"
  have cn: "config_of ?na = Some defaultCfg"
    using f(1) [of "[Some [0]]"] by (simp add: defaultCfg_fields)
  have "write_errors (bus ?na) = []"
    "replies (bus ?na) = map (\<lambda>b. Some [b]) [] @ Some (0 # []) # []"
    "list_all (\<lambda>b. b \<noteq> 0) ([] :: byte list)"
    by (simp_all add: f)
  from flush_task_run [OF this cn defaultCfg_fields(1) json_defaultCfg, of "''flush_ca''" "0x27"]
  have fl: "left_param (executeTask flush_ca 1001 ?n) = Some ''flush_ca''"
    by (auto simp: executeTask_flush [OF flush_ca_strings(1)] flush_ca_strings left_param_def)
  have "write_errors (bus (?n\<lparr>currentParam := ''pump''\<rparr>)) = []"
    "replies (bus (?n\<lparr>currentParam := ''pump''\<rparr>)) = Some (0 # []) # []"
    by (simp_all add: f)
  from pump_task_run [OF this, of "0x21"]
  have pu: "left_param (executeTask pump_start 1001 ?n) = Some ''''"
    by (auto simp: executeTask_pump pump_start_def left_param_def)
  show ?thesis
    using w m'(2) st tk fl pu
    by (simp add: run exits_def state_after_def)
qed


subsection \<open>Setup on a store that has the default record\<close>

lemma defaultCfg_values:
  "I2CAddr defaultCfg = 0x10" "f32_val (WasteThreshold defaultCfg) = 1000"
  "f32_val (WasteRemaining defaultCfg) = 0"
  "p \<in> set params \<Longrightarrow> f32_val (use_of p defaultCfg) = 2"
  "p \<in> set params \<Longrightarrow> f32_val (start_of p defaultCfg) = 500"
  "p \<in> set params \<Longrightarrow> f32_val (remain_of p defaultCfg) = 500"
proof -
  have v: "f32_val 0x40000000 = 2" "f32_val 0x43FA0000 = 500" "f32_val 0x447A0000 = 1000"
    "f32_val 0 = 0"
    by (simp_all add: f32_eval f32_val_def)
  show "I2CAddr defaultCfg = 0x10" "f32_val (WasteThreshold defaultCfg) = 1000"
    "f32_val (WasteRemaining defaultCfg) = 0"
    by (simp_all add: defaultCfg_def v)
  show "p \<in> set params \<Longrightarrow> f32_val (use_of p defaultCfg) = 2"
    by (auto simp: params_cases use_of_def defaultCfg_def v)
  show "p \<in> set params \<Longrightarrow> f32_val (start_of p defaultCfg) = 500"
    by (auto simp: params_cases start_of_def defaultCfg_def v)
  show "p \<in> set params \<Longrightarrow> f32_val (remain_of p defaultCfg) = 500"
    by (auto simp: params_cases remain_of_def defaultCfg_def v)
qed

lemma Setup_existing:
  assumes "has_key ''default'' (configs (store (queue m)))"
  shows "Setup m = (Inr (), set_store ((store (queue m))\<lparr>configs := put ''default'' defaultCfg (configs (store (queue m)))\<rparr>) m)"
  using assms json_defaultCfg
  by (simp add: Setup_def Update_config_def defaultCfg_fields(1))

lemma map_fst_put: "has_key k kvs \<Longrightarrow> map fst (put k v kvs) = map fst kvs"
  by (induction kvs) (force simp: has_key_def)+

text \<open>
  C10.  \<^verbatim>\<open>Setup\<close> on a store that already holds a record \<open>default\<close>: the call succeeds and
  the record is replaced by the built-in defaults (address \<open>0x10\<close>, every use \<open>2.0\<close>, every
  start and remaining level \<open>500.0\<close>, threshold \<open>1000.0\<close>, waste \<open>0.0\<close>), whatever it held
  before; the keys of the bucket, its other records, the queue and the readings are as
  they were.
\<close>

theorem C10_Setup_overwrites_existing_record:
  assumes "has_key ''default'' (configs (store (queue m)))"
  shows "fst (Setup m) = Inr () \<and>
         Get ''default'' (snd (Setup m)) = Inr defaultCfg \<and>
         map fst (configs (store (queue (snd (Setup m))))) = map fst (configs (store (queue m))) \<and>
         (\<forall>k. k \<noteq> ''default'' \<longrightarrow> Get k (snd (Setup m)) = Get k m) \<and>
         tasks (store (queue (snd (Setup m)))) = tasks (store (queue m)) \<and>
         readings (store (queue (snd (Setup m)))) = readings (store (queue m)) \<and>
         I2CAddr defaultCfg = 0x10 \<and>
         (\<forall>p \<in> set params. f32_val (use_of p defaultCfg) = 2 \<and>
            f32_val (start_of p defaultCfg) = 500 \<and> f32_val (remain_of p defaultCfg) = 500) \<and>
         f32_val (WasteThreshold defaultCfg) = 1000 \<and> f32_val (WasteRemaining defaultCfg) = 0"
  unfolding Setup_existing [OF assms] fst_conv snd_conv
  using assms
  by (simp add: Get_def Get_config_def set_store_def map_of_put map_fst_put defaultCfg_values)

theorem C10_Setup_overwrites_existing_record_witness:
  "Get ''default'' (controller_with config_S1 []) = Inr config_S1 \<and>
   f32_val (ReagentRemainCa config_S1) = 2 \<and> f32_val (WasteThreshold config_S1) = 10 \<and>
   fst (Setup (controller_with config_S1 [])) = Inr () \<and>
   Get ''default'' (snd (Setup (controller_with config_S1 []))) = Inr defaultCfg \<and>
   f32_val (ReagentRemainCa defaultCfg) = 500 \<and> f32_val (WasteThreshold defaultCfg) = 1000"
proof -
  have g: "Get ''default'' (controller_with config_S1 []) = Inr config_S1"
    using controller_with_facts(1) [OF config_S1_fields(1), of "[]"] config_S1_fields(2)
    by (simp add: config_of_Get [symmetric] config_S1_def)
  then have h: "has_key ''default'' (configs (store (queue (controller_with config_S1 []))))"
    by (auto simp: Get_def Get_config_def has_key_def split: option.splits dest: map_of_SomeD
             intro: rev_image_eqI)
  have v: "f32_val (ReagentRemainCa config_S1) = 2" "f32_val (WasteThreshold config_S1) = 10"
    "f32_val (ReagentRemainCa defaultCfg) = 500"
    by (simp_all add: config_S1_def defaultCfg_def f32_eval f32_val_def)
  show ?thesis
    using C10_Setup_overwrites_existing_record [OF h] g v by simp
qed

subsection \<open>The payload of a parameter calibration\<close>

lemma cal_codes:
  "map_of [(''ca'', 0x22), (''alk'', 0x23), (''mg'', 0x24), (''no3'', 0x25), (''po4'', 0x26 :: byte)] key = Some code
   \<Longrightarrow> key \<in> set params"
  by (auto simp: params_def split: if_splits)

lemma enqueueParamCalibration_accepted:
  assumes "map_of [(''ca'', 0x22), (''alk'', 0x23), (''mg'', 0x24), (''no3'', 0x25), (''po4'', 0x26)] key = Some code"
    and "current (queue m) = None" and "tasks (store (queue m)) = []"
    and "write_errors (bus m) = []"
  shows "enqueueParamCalibration key (Some v) now m =
         (NoContent,
          (appendLog (''%s: Calibration test started. Known value: %.3f. Please wait...'', [S (ToUpper key), F v])
             (m\<lparr>bus := (bus m)\<lparr>written := written (bus m) @
                  [(getConfigI2C m, code # LittleEndian_PutUint32 v)]\<rparr>\<rparr>))
          \<lparr>queue := (queue m)\<lparr>store := (store (queue m))\<lparr>sequence := Suc (sequence (store (queue m))),
                    tasks := [(next_key (store (queue m)),
                        \<lparr>ID = next_key (store (queue m)), Param = ''cal_'' @ key, Code = code, Time = now\<rparr>)]\<rparr>,
                  signals := Suc (signals (queue m))\<rparr>\<rparr>)"
proof -
  let ?m1 = "m\<lparr>bus := (bus m)\<lparr>written := written (bus m) @ [(getConfigI2C m, code # LittleEndian_PutUint32 v)]\<rparr>\<rparr>"
  let ?m2 = "appendLog (''%s: Calibration test started. Known value: %.3f. Please wait...'', [S (ToUpper key), F v]) ?m1"
  have w: "WriteBytes (getConfigI2C m) (code # LittleEndian_PutUint32 v) m = (Inr (), ?m1)"
    by (rule WriteBytes_ok [OF assms(4)])
  have q: "queue ?m2 = queue m"
    by (simp add: appendLog_def Let_def)
  have a: "AddTask (''cal_'' @ key) code now (queue m) =
           (Inr (), (queue m)\<lparr>store := (store (queue m))\<lparr>sequence := Suc (sequence (store (queue m))),
                   tasks := tasks (store (queue m)) @
                     [(next_key (store (queue m)),
                       \<lparr>ID = next_key (store (queue m)), Param = ''cal_'' @ key, Code = code, Time = now\<rparr>)]\<rparr>,
                 signals := Suc (signals (queue m))\<rparr>)"
    by (rule AddTask_fresh) (simp_all add: is_current_def queued_params_def assms)
  show ?thesis
    unfolding enqueueParamCalibration_def option.case assms(1) Let_def w prod.case sum.case q a
    using assms(2,3) by simp
qed

lemma LittleEndian_round_trip: "LittleEndian_Uint32 (LittleEndian_PutUint32 v) = v"
proof (rule bit_word_eqI)
  fix n
  assume "n < LENGTH(32)"
  then consider "n < 8" | "8 \<le> n" "n < 16" | "16 \<le> n" "n < 24" | "24 \<le> n" "n < 32"
    by force
  then show "bit (LittleEndian_Uint32 (LittleEndian_PutUint32 v)) n = bit v n"
    unfolding LittleEndian_Uint32_def LittleEndian_PutUint32_def
    by cases (auto simp: bit_simps)
qed



subsection \<open>The gates of the calibration and flush enqueues\<close>

lemma enqueuePumpCalibration_idle:
  assumes "current (queue m) = None" and "tasks (store (queue m)) = []"
  shows "fst (enqueuePumpCalibration now m) = NoContent"
proof -
  have "\<not> is_current (queue m) ''pump''" "''pump'' \<notin> set (queued_params (queue m))"
    using assms by (simp_all add: is_current_def queued_params_def)
  note a = AddTask_fresh [OF this, of "0x21" now]
  show ?thesis
    unfolding enqueuePumpCalibration_def Let_def a prod.case sum.case
    using assms by simp
qed

lemma enqueuePumpCalibration_busy:
  assumes "current (queue m) \<noteq> None \<or> tasks (store (queue m)) \<noteq> []"
  shows "enqueuePumpCalibration now m =
     (HttpError (if current (queue m) \<noteq> None then ''Cannot calibrate pump: another task in progress''
                 else ''Cannot calibrate pump: queue not empty'') StatusConflict, m)"
proof (cases "current (queue m) = None")
  case True
  with assms have "tasks (store (queue m)) \<noteq> []"
    by blast
  with True show ?thesis
    unfolding enqueuePumpCalibration_def Let_def by simp
next
  case False
  then show ?thesis
    unfolding enqueuePumpCalibration_def Let_def by simp
qed

lemma enqueueParamCalibration_busy:
  assumes "key \<in> set params"
    and "current (queue m) \<noteq> None \<or> tasks (store (queue m)) \<noteq> []"
  shows "enqueueParamCalibration key (Some v) now m =
     (HttpError (if current (queue m) \<noteq> None then ''Cannot calibrate: another task in progress''
                 else ''Cannot calibrate: queue not empty'') StatusConflict, m)"
proof -
  from assms(1) obtain code where
    c: "map_of [(''ca'', 0x22), (''alk'', 0x23), (''mg'', 0x24), (''no3'', 0x25), (''po4'', 0x26 :: byte)] key = Some code"
    by (auto simp: params_cases)
  show ?thesis
  proof (cases "current (queue m) = None")
    case True
    with assms(2) have "tasks (store (queue m)) \<noteq> []"
      by blast
    with True show ?thesis
      unfolding enqueueParamCalibration_def option.case c Let_def by simp
  next
    case False
    then show ?thesis
      unfolding enqueueParamCalibration_def option.case c Let_def by simp
  qed
qed

lemma flush_codes:
  "key \<in> set params \<Longrightarrow>
   \<exists>code. map_of [(''ca'', 0x27), (''alk'', 0x28), (''mg'', 0x29), (''no3'', 0x2A), (''po4'', 0x2B :: byte)] key = Some code"
  by (auto simp: params_cases)

lemma fillReagentOne_cases:
  assumes "key \<in> set params"
  shows "fillReagentOne key now m =
     (if is_current (queue m) (''flush_'' @ key)
        then (HttpError (error_text (InProgress (''flush_'' @ key))) StatusConflict, m)
      else if ''flush_'' @ key \<in> set (queued_params (queue m))
        then (HttpError (error_text (AlreadyQueued (''flush_'' @ key))) StatusConflict, m)
      else (NoContent,
            appendLog (''%s: Reagent fill & flush enqueued'', [S (ToUpper key)])
              (m\<lparr>queue := snd (AddTask (''flush_'' @ key)
                     (the (map_of [(''ca'', 0x27), (''alk'', 0x28), (''mg'', 0x29), (''no3'', 0x2A), (''po4'', 0x2B)] key))
                     now (queue m))\<rparr>)))"
proof -
  from flush_codes [OF assms] obtain code where
    c: "map_of [(''ca'', 0x27), (''alk'', 0x28), (''mg'', 0x29), (''no3'', 0x2A), (''po4'', 0x2B :: byte)] key = Some code"
    by blast
  consider "is_current (queue m) (''flush_'' @ key)"
    | "\<not> is_current (queue m) (''flush_'' @ key)" "''flush_'' @ key \<in> set (queued_params (queue m))"
    | "\<not> is_current (queue m) (''flush_'' @ key)" "''flush_'' @ key \<notin> set (queued_params (queue m))"
    by blast
  then show ?thesis
  proof cases
    case 1
    from AddTask_in_progress [OF this] show ?thesis
      unfolding fillReagentOne_def c option.case Let_def using 1 by simp
  next
    case 2
    from AddTask_queued [OF this] show ?thesis
      unfolding fillReagentOne_def c option.case Let_def using 2 by simp
  next
    case 3
    from AddTask_fresh [OF this] show ?thesis
      unfolding fillReagentOne_def c option.case Let_def using 3 by simp
  qed
qed


subsection \<open>Runs of tests, one after the other\<close>

lemma executeTask_test_run:
  assumes "p \<in> set params" and "Param t = p"
    and "write_errors (bus m) = []" and "replies (bus m) = Some (0 # s) # Some bs # rest"
    and "config_of m = Some cfg" and "Config_ID cfg = ''default''"
    and "json_Config (charged p cfg)"
    and "f32_finite (LittleEndian_Uint32 (take 4 (bs @ replicate 4 0)))"
  shows "\<exists>m'. executeTask t now m = Some (Completed, m') \<and>
              config_of m' = Some (charged p cfg) \<and>
              readings_of m' = readings_of m @
                [\<lparr>Reading_Param = p, Ts = now,
                  Value = LittleEndian_Uint32 (take 4 (bs @ replicate 4 0))\<rparr>] \<and>
              replies (bus m') = rest \<and> write_errors (bus m') = []"
proof -
  let ?v = "LittleEndian_Uint32 (take 4 (bs @ replicate 4 0))"
  from executeTask_test_succeeds [OF assms(1-4), of now] obtain m' where
    e: "executeTask t now m = Some (Completed, m')" and
    r: "replies (bus m') = rest" "write_errors (bus m') = []" and
    q: "queue m' = queue (account_test p (ToUpper p) (snd (storeResult p ?v now m)))"
    by blast
  have c1: "config_of (snd (storeResult p ?v now m)) = Some cfg"
    using assms(5) by simp
  note acc = account_test_config [OF assms(1) c1 assms(6) assms(7), of "ToUpper p"]
  have "config_of m' = Some (charged p cfg)"
    using acc(1) q by (simp add: config_of_def Get_def Get_config_def)
  moreover have "readings_of m' = readings_of m @ [\<lparr>Reading_Param = p, Ts = now, Value = ?v\<rparr>]"
    using acc(2) q assms(8) by (simp add: readings_of_def storeResult_store)
  ultimately show ?thesis
    using e r by blast
qed

lemma config_tenth_fields:
  "json_Config config_tenth" "Config_ID config_tenth = ''default''"
  "config_tenth\<lparr>Config_ID := ''default''\<rparr> = config_tenth"
  "remain_of ''ca'' config_tenth = 0x43FA0000" "use_of ''ca'' config_tenth = 0x3DCCCCCD"
  "start_of ''ca'' config_tenth = 0x43FA0000" "WasteRemaining config_tenth = 0"
  by (simp_all add: config_tenth_def defaultCfg_def json_Config_def f32_finite_def f32_exponent_def
        remain_of_def use_of_def start_of_def)

lemma f32_tenth:
  "f32_sub 0x43FA0000 0x3DCCCCCD = 0x43F9F333" "f32_sub 0x43F9F333 0x3DCCCCCD = 0x43F9E666"
  "f32_sub 0x43F9E666 0x3DCCCCCD = 0x43F9D999"
  "f32_add 0 0x3DCCCCCD = 0x3DCCCCCD" "f32_add 0x3DCCCCCD 0x3DCCCCCD = 0x3E4CCCCD"
  "f32_add 0x3E4CCCCD 0x3DCCCCCD = 0x3E99999A"
  by (simp_all add: f32_eval)

lemma f32_tenth_values:
  "f32_val 0x43FA0000 = 500" "f32_val 0x3DCCCCCD = 13421773 / 134217728"
  "f32_val 0x43F9D999 = 16374169 / 32768" "f32_val 0x43F9D99A = 8187085 / 16384"
  by (simp_all add: f32_eval f32_val_def)

lemma config_S1_id: "config_S1\<lparr>Config_ID := ''default''\<rparr> = config_S1"
  by (simp add: config_S1_def defaultCfg_def)



subsection \<open>A flush enqueued behind a test\<close>

lemma fillReagentOne_accepted:
  assumes "map_of [(''ca'', 0x27), (''alk'', 0x28), (''mg'', 0x29), (''no3'', 0x2A), (''po4'', 0x2B)] key = Some code"
    and "\<not> is_current (queue m) (''flush_'' @ key)"
    and "''flush_'' @ key \<notin> set (queued_params (queue m))"
  shows "fst (fillReagentOne key now m) = NoContent"
    and "tasks (store (queue (snd (fillReagentOne key now m)))) =
         tasks (store (queue m)) @
           [(next_key (store (queue m)),
             \<lparr>ID = next_key (store (queue m)), Param = ''flush_'' @ key, Code = code, Time = now\<rparr>)]"
    and "current (queue (snd (fillReagentOne key now m))) = current (queue m)"
  unfolding fillReagentOne_def assms(1) option.case Let_def AddTask_fresh [OF assms(2,3)] prod.case sum.case
  by simp_all

subsection \<open>Tests queued on a set-up controller\<close>

lemma controller_with_sequence:
  assumes "json_Config cfg"
  shows "sequence (store (queue (controller_with cfg rs))) = 0"
proof -
  have p: "snd (putConfig cfg (snd (Setup new_controller))) =
           appendLog (''AutoTester configuration saved'', [])
             (new_controller\<lparr>queue := empty_queue\<lparr>store := empty_store\<lparr>configs :=
                [(''default'', cfg\<lparr>Config_ID := ''default''\<rparr>)]\<rparr>\<rparr>\<rparr>)"
    using assms unfolding Setup_new_controller snd_conv
    by (simp add: putConfig_def Get_def Get_config_def CreateOrUpdate_def Update_config_def
          has_key_def set_store_def Let_def new_controller_def empty_queue_def empty_store_def)
  show ?thesis
    unfolding controller_with_def device_replies_def p
    by (simp add: empty_store_def)
qed

lemma first_keys: "digits (Suc 0) = ''1''" "digits (Suc (Suc 0)) = ''2''"
  by (simp_all add: digits.simps char_of_def bit_iff_odd_drop_bit drop_bit_eq_div)

lemma test_codes:
  "map_of [(''ca'', 0x11), (''alk'', 0x12), (''mg'', 0x13), (''no3'', 0x14), (''po4'', 0x15 :: byte)] ''ca'' = Some 0x11"
  "map_of [(''ca'', 0x11), (''alk'', 0x12), (''mg'', 0x13), (''no3'', 0x14), (''po4'', 0x15 :: byte)] ''alk'' = Some 0x12"
  "map_of [(''ca'', 0x27), (''alk'', 0x28), (''mg'', 0x29), (''no3'', 0x2A), (''po4'', 0x2B :: byte)] ''ca'' = Some 0x27"
  "''ca'' \<in> set params" "''alk'' \<in> set params"
  by (simp_all add: params_def)

lemma one_test_queued_facts:
  "tasks (store (queue one_test_queued)) =
     [(''1'', \<lparr>ID = ''1'', Param = ''ca'', Code = 0x11, Time = 1000\<rparr>)]"
  "current (queue one_test_queued) = None"
proof -
  note f = controller_with_facts [OF json_defaultCfg, of "[]"]
  note sq = controller_with_sequence [OF json_defaultCfg, of "[]"]
  let ?m = "controller_with defaultCfg []"
  have c: "config_of ?m = Some defaultCfg"
    using f(1) by (simp add: defaultCfg_fields)
  have gate: "canEnqueueTest ''ca'' (use_of ''ca'' defaultCfg) ?m = Inr ()"
    by (simp add: canEnqueueTest_params [OF test_codes(4) c] defaultCfg_fields f32_eval)
  have idle: "\<not> is_current (queue ?m) ''ca''" "''ca'' \<notin> set (queued_params (queue ?m))"
    by (simp_all add: is_current_def queued_params_def f)
  note run = runOne_accepted [OF test_codes(1) c gate idle, of 1000]
  show "tasks (store (queue one_test_queued)) =
     [(''1'', \<lparr>ID = ''1'', Param = ''ca'', Code = 0x11, Time = 1000\<rparr>)]"
    unfolding one_test_queued_def run snd_conv
    by (simp add: f sq next_key_def first_keys)
  show "current (queue one_test_queued) = None"
    unfolding one_test_queued_def run snd_conv
    by (simp add: f)
qed

lemma one_test_running_facts:
  "tasks (store (queue one_test_running)) = []"
  "current (queue one_test_running) = Some \<lparr>ID = ''1'', Param = ''ca'', Code = 0x11, Time = 1000\<rparr>"
proof -
  have nt: "next_task (tasks (store (queue one_test_queued))) =
            Some (''1'', \<lparr>ID = ''1'', Param = ''ca'', Code = 0x11, Time = 1000\<rparr>)"
    by (simp add: one_test_queued_facts next_task_def scan_def)
  note d = dequeue_next [OF nt]
  show "tasks (store (queue one_test_running)) = []"
    unfolding one_test_running_def d snd_conv by (simp add: one_test_queued_facts)
  show "current (queue one_test_running) = Some \<lparr>ID = ''1'', Param = ''ca'', Code = 0x11, Time = 1000\<rparr>"
    unfolding one_test_running_def d snd_conv by simp
qed



subsection \<open>The waste after a task\<close>

lemma executeTask_cal:
  assumes "\<not> HasPrefix (Param t) ''flush_''" and "Param t \<noteq> ''pump''"
    and "HasPrefix (Param t) ''cal_''"
  shows "executeTask t now m = calibration_task (Param t) (Code t) (m\<lparr>currentParam := Param t\<rparr>)"
  using assms by (simp add: executeTask_def Let_def)

lemma CreateOrUpdate_config:
  assumes "config_of m = Some cfg" and "Config_ID c = ''default''"
  shows "config_of (snd (CreateOrUpdate c m)) = Some (if json_Config c then c else cfg)"
proof -
  from assms(1) have g: "Get ''default'' m = Inr cfg"
    by (simp add: config_of_Get)
  then have mp: "map_of (configs (store (queue m))) ''default'' = Some cfg"
    by (simp add: Get_def Get_config_def split: option.splits)
  show ?thesis
    unfolding config_of_def Get_def CreateOrUpdate_default [OF g assms(2)]
    by (simp add: Get_config_def map_of_put mp)
qed

lemma other_task_config:
  assumes "executeTask t now m = Some (ex, m')"
    and "config_of m = Some cfg" and "Config_ID cfg = ''default''"
    and "HasPrefix (Param t) ''flush_'' \<or> Param t = ''pump'' \<or> HasPrefix (Param t) ''cal_''"
  shows "\<exists>cfg'. config_of m' = Some cfg' \<and> WasteRemaining cfg' = WasteRemaining cfg \<and>
                WasteThreshold cfg' = WasteThreshold cfg"
proof -
  consider (flush) "HasPrefix (Param t) ''flush_''"
    | (pump) "Param t = ''pump''"
    | (cal) "\<not> HasPrefix (Param t) ''flush_''" "Param t \<noteq> ''pump''" "HasPrefix (Param t) ''cal_''"
    using assms(4) by blast
  then show ?thesis
  proof cases
    case flush
    let ?mm = "appendLog (''%s: Flush started'', [S (ToUpper (TrimPrefix (Param t) ''flush_''))])
                 (m\<lparr>currentParam := Param t\<rparr>)"
    let ?c = "refilled (TrimPrefix (Param t) ''flush_'') cfg"
    from assms(1) have e: "flush_task (Param t) (Code t) ?mm = Some (ex, m')"
      by (simp add: executeTask_flush [OF flush])
    have cm: "config_of ?mm = Some cfg"
      using assms(2) by simp
    have g: "Get ''default'' ?mm = Inr cfg"
      by (rule cm [unfolded config_of_Get])
    from flush_task_queue [OF e] consider "queue m' = queue ?mm"
      | cfg0 where "Get ''default'' ?mm = Inr cfg0"
          "queue m' = queue (snd (CreateOrUpdate (refilled (TrimPrefix (Param t) ''flush_'') cfg0) ?mm))"
      by blast
    then show ?thesis
    proof cases
      case 1
      then have "config_of m' = config_of ?mm"
        by (rule config_of_cong)
      with cm show ?thesis by simp
    next
      case 2
      from 2(1) g have eq: "cfg0 = cfg"
        by simp
      have id: "Config_ID ?c = ''default''"
        using assms(3) by simp
      have "config_of m' = config_of (snd (CreateOrUpdate ?c ?mm))"
        using 2(2) unfolding eq by (rule config_of_cong)
      also have "\<dots> = Some (if json_Config ?c then ?c else cfg)"
        by (rule CreateOrUpdate_config [OF cm id])
      finally show ?thesis
        by simp
    qed
  next
    case pump
    from assms(1) have "pump_task (Code t) (m\<lparr>currentParam := ''pump''\<rparr>) = Some (ex, m')"
      by (simp add: executeTask_pump [OF pump])
    from pump_task_queue [OF this] have "config_of m' = config_of (m\<lparr>currentParam := ''pump''\<rparr>)"
      by (rule config_of_cong)
    with assms(2) show ?thesis by simp
  next
    case cal
    from assms(1) have "calibration_task (Param t) (Code t) (m\<lparr>currentParam := Param t\<rparr>) = Some (ex, m')"
      by (simp add: executeTask_cal [OF cal])
    from calibration_task_queue [OF this] have "config_of m' = config_of (m\<lparr>currentParam := Param t\<rparr>)"
      by (rule config_of_cong)
    with assms(2) show ?thesis by simp
  qed
qed

lemma test_task_config:
  assumes "p \<in> set params" and "Param t = p"
    and "executeTask t now m = Some (Completed, m')"
    and "config_of m = Some cfg" and "Config_ID cfg = ''default''"
    and "json_Config (charged p cfg)"
  shows "config_of m' = Some (charged p cfg)"
proof -
  from exec_test_completed [OF assms(1-3)] obtain v where
    q: "queue m' = queue (account_test p (ToUpper p) (snd (storeResult p v now m)))"
    by blast
  have c1: "config_of (snd (storeResult p v now m)) = Some cfg"
    using assms(4) by simp
  note acc = account_test_config [OF assms(1) c1 assms(5) assms(6), of "ToUpper p"]
  have "config_of m' = config_of (account_test p (ToUpper p) (snd (storeResult p v now m)))"
    using q by (rule config_of_cong)
  with acc(1) show ?thesis by simp
qed

lemma gate_passed:
  assumes "p \<in> set params" and "config_of m = Some cfg"
    and "canEnqueueTest p (use_of p cfg) m = Inr ()"
  shows "\<not> f32_gt (f32_add (WasteRemaining cfg) (use_of p cfg)) (WasteThreshold cfg)"
  using assms(3) unfolding canEnqueueTest_params [OF assms(1,2)]
  by (simp split: if_splits)



lemma config_threshold3_fields:
  "json_Config config_threshold3" "Config_ID config_threshold3 = ''default''"
  "config_threshold3\<lparr>Config_ID := ''default''\<rparr> = config_threshold3"
  "remain_of ''ca'' config_threshold3 = 0x43FA0000" "use_of ''ca'' config_threshold3 = 0x40000000"
  "remain_of ''alk'' config_threshold3 = 0x43FA0000" "use_of ''alk'' config_threshold3 = 0x40000000"
  "WasteRemaining config_threshold3 = 0" "WasteThreshold config_threshold3 = 0x40400000"
  by (simp_all add: config_threshold3_def defaultCfg_def json_Config_def f32_finite_def
        f32_exponent_def remain_of_def use_of_def)

lemma f32_threshold3:
  "f32_sub 0x43FA0000 0x40000000 = 0x43F90000" "f32_add 0 0x40000000 = 0x40000000"
  "f32_add 0x40000000 0x40000000 = 0x40800000"
  "\<not> f32_lt 0x43FA0000 0x40000000" "\<not> f32_gt 0x40000000 0x40400000"
  "f32_gt 0x40800000 0x40400000"
  "f32_val 0x40000000 = 2" "f32_val 0x40400000 = 3" "f32_val 0x40800000 = 4"
  by (simp_all add: f32_eval f32_val_def)

end
